theory Spec2Isabelle
  imports Main
begin

section \<open>Data model (types/gameTypes)\<close>

text \<open>
  The string-tagged unions of the TypeScript source become datatypes, its interfaces
  records. Numbers that hold coordinates are integers (the engine subtracts from them);
  counters and list indices are naturals.
\<close>

datatype Player = Black | White

datatype StoneType = Empty | BlackConduit | WhiteConduit | BlackKeystone | WhiteKeystone

datatype GamePhase = Placing | Converting | Resonating | SelectingFocus

datatype GameStatus = Playing | BlackWin | WhiteWin | Draw

datatype Direction = Up | Down | Left | Right

datatype NotationType = Normal | Focus | Resonance | Conversion

datatype MoveType = Place | Convert | ResonanceMove

datatype LShapeType = L | ReverseL

datatype GameEventType =
  StonePlaced | CoreFormed | ResonanceActivated | StoneConverted | LShapeDetected | TurnStarted

text \<open>
  The only run-time failure of the engine is JavaScript's TypeError, thrown when a property
  of \<open>undefined\<close> is read (a cell outside the board, an element outside an array).
\<close>

datatype error = TypeError

record Position =
  row :: int
  col :: int

record SecondaryNotation =
  secondaryMoveNumber :: nat
  secondaryNotationType :: NotationType

record NotationInfo =
  notationMoveNumber :: nat
  notationType :: NotationType
  direction :: "Direction option"
  secondaryNotation :: "SecondaryNotation option"

record BoardCell =
  position :: Position
  stoneType :: StoneType
  isHighlighted :: bool
  isConvertible :: bool
  isResonating :: bool
  cellNotation :: "NotationInfo option"

type_synonym Board = "BoardCell list list"

record LShape =
  stones :: "Position list"
  lshapeType :: LShapeType

record Core =
  positions :: "Position list"
  coreStones :: "BoardCell list"

section \<open>Board primitives (utils/gameLogic)\<close>

definition BOARD_SIZE :: nat where
  "BOARD_SIZE = 17"

text \<open>The template strings \<open>`${player}Conduit`\<close> and \<open>`${player}Keystone`\<close>.\<close>

fun conduitType :: "Player \<Rightarrow> StoneType" where
  "conduitType Black = BlackConduit"
| "conduitType White = WhiteConduit"

fun keystoneType :: "Player \<Rightarrow> StoneType" where
  "keystoneType Black = BlackKeystone"
| "keystoneType White = WhiteKeystone"

text \<open>\<open>stoneType.includes('black')\<close>, \<open>.includes('Keystone')\<close>, \<open>.includes('Conduit')\<close>.\<close>

fun includesBlack :: "StoneType \<Rightarrow> bool" where
  "includesBlack BlackConduit = True"
| "includesBlack BlackKeystone = True"
| "includesBlack _ = False"

fun includesKeystone :: "StoneType \<Rightarrow> bool" where
  "includesKeystone BlackKeystone = True"
| "includesKeystone WhiteKeystone = True"
| "includesKeystone _ = False"

fun includesConduit :: "StoneType \<Rightarrow> bool" where
  "includesConduit BlackConduit = True"
| "includesConduit WhiteConduit = True"
| "includesConduit _ = False"

definition createEmptyBoard :: Board where
  "createEmptyBoard =
     map (\<lambda>r. map (\<lambda>c. \<lparr>position = \<lparr>row = int r, col = int c\<rparr>, stoneType = Empty,
                          isHighlighted = False, isConvertible = False,
                          isResonating = False, cellNotation = None\<rparr>)
                   [0..<BOARD_SIZE])
         [0..<BOARD_SIZE]"

text \<open>
  Every board of the engine is made by \<open>createEmptyBoard\<close> and then only cloned and
  changed cell by cell, so it keeps 17 rows of 17 cells. The scans below read
  \<open>board[row][col]\<close> for indices inside that grid.
\<close>

definition wf_board :: "Board \<Rightarrow> bool" where
  "wf_board b = (length b = BOARD_SIZE \<and> list_all (\<lambda>cells. length cells = BOARD_SIZE) b)"

definition isValidPosition :: "Position \<Rightarrow> bool" where
  "isValidPosition pos =
     (row pos \<ge> 0 \<and> row pos < int BOARD_SIZE \<and> col pos \<ge> 0 \<and> col pos < int BOARD_SIZE)"

definition isSamePosition :: "Position \<Rightarrow> Position \<Rightarrow> bool" where
  "isSamePosition pos1 pos2 = (row pos1 = row pos2 \<and> col pos1 = col pos2)"

definition isPositionInArray :: "Position \<Rightarrow> Position list \<Rightarrow> bool" where
  "isPositionInArray pos ps = list_ex (\<lambda>q. isSamePosition q pos) ps"

text \<open>\<open>board[pos.row][pos.col]\<close>, read where the source has checked the position.\<close>

definition cellAt :: "Board \<Rightarrow> Position \<Rightarrow> BoardCell" where
  "cellAt b pos = b ! nat (row pos) ! nat (col pos)"

text \<open>\<open>board[pos.row][pos.col].stoneType = st\<close> on a cloned board.\<close>

definition setStoneType :: "Board \<Rightarrow> Position \<Rightarrow> StoneType \<Rightarrow> Board" where
  "setStoneType b pos st =
     b[nat (row pos) := (b ! nat (row pos))[nat (col pos) := (cellAt b pos)\<lparr>stoneType := st\<rparr>]]"

definition getEmptyPositions :: "Board \<Rightarrow> Position list" where
  "getEmptyPositions b =
     [\<lparr>row = int r, col = int c\<rparr>. r \<leftarrow> [0..<BOARD_SIZE], c \<leftarrow> [0..<BOARD_SIZE],
        stoneType (b ! r ! c) = Empty]"

definition getConduitStones :: "Board \<Rightarrow> Player \<Rightarrow> Position list" where
  "getConduitStones b pl =
     [\<lparr>row = int r, col = int c\<rparr>. r \<leftarrow> [0..<BOARD_SIZE], c \<leftarrow> [0..<BOARD_SIZE],
        stoneType (b ! r ! c) = conduitType pl]"

definition getKeystoneStones :: "Board \<Rightarrow> Player \<Rightarrow> Position list" where
  "getKeystoneStones b pl =
     [\<lparr>row = int r, col = int c\<rparr>. r \<leftarrow> [0..<BOARD_SIZE], c \<leftarrow> [0..<BOARD_SIZE],
        stoneType (b ! r ! c) = keystoneType pl]"

section \<open>Pattern detection\<close>

definition areAdjacent :: "Position \<Rightarrow> Position \<Rightarrow> bool" where
  "areAdjacent pos1 pos2 =
     (let rowDiff = \<bar>row pos1 - row pos2\<bar>; colDiff = \<bar>col pos1 - col pos2\<bar>
      in (rowDiff = 1 \<and> colDiff = 0) \<or> (rowDiff = 0 \<and> colDiff = 1))"

fun isLShape :: "Position list \<Rightarrow> bool" where
  "isLShape [stone1, stone2, stone3] =
     (length (filter (\<lambda>x. x)
        [areAdjacent stone1 stone2, areAdjacent stone2 stone3, areAdjacent stone1 stone3]) = 2)"
| "isLShape _ = False"

definition getLShapeType :: "Position list \<Rightarrow> LShapeType" where
  "getLShapeType sts = L"

definition detectLShapes :: "Board \<Rightarrow> Player \<Rightarrow> LShape list" where
  "detectLShapes b pl =
     (let conduitStones = getConduitStones b pl; n = length conduitStones
      in [\<lparr>stones = [conduitStones ! i, conduitStones ! j, conduitStones ! k],
           lshapeType = getLShapeType [conduitStones ! i, conduitStones ! j, conduitStones ! k]\<rparr>.
            i \<leftarrow> [0..<n - 2], j \<leftarrow> [i + 1..<n - 1], k \<leftarrow> [j + 1..<n],
            isLShape [conduitStones ! i, conduitStones ! j, conduitStones ! k]])"

definition isValidCore :: "BoardCell list \<Rightarrow> Player \<Rightarrow> bool" where
  "isValidCore cells pl =
     list_all (\<lambda>cell. stoneType cell = conduitType pl \<or> stoneType cell = keystoneType pl) cells"

text \<open>
  The four cells of the 2x2 area whose top-left corner is \<open>(startRow, startCol)\<close>, and the
  core object both detectors push for it.
\<close>

definition fourCells :: "Board \<Rightarrow> nat \<Rightarrow> nat \<Rightarrow> BoardCell list" where
  "fourCells b startRow startCol =
     [b ! startRow ! startCol, b ! startRow ! (startCol + 1),
      b ! (startRow + 1) ! startCol, b ! (startRow + 1) ! (startCol + 1)]"

definition coreAt :: "Board \<Rightarrow> nat \<Rightarrow> nat \<Rightarrow> Core" where
  "coreAt b startRow startCol =
     \<lparr>positions = [\<lparr>row = int startRow, col = int startCol\<rparr>,
                   \<lparr>row = int startRow, col = int startCol + 1\<rparr>,
                   \<lparr>row = int startRow + 1, col = int startCol\<rparr>,
                   \<lparr>row = int startRow + 1, col = int startCol + 1\<rparr>],
      coreStones = fourCells b startRow startCol\<rparr>"

definition detectCores :: "Board \<Rightarrow> Player \<Rightarrow> Core list" where
  "detectCores b pl =
     [coreAt b r c. r \<leftarrow> [0..<BOARD_SIZE - 1], c \<leftarrow> [0..<BOARD_SIZE - 1],
        isValidCore (fourCells b r c) pl]"

definition detectCoresWithNewStone :: "Board \<Rightarrow> Player \<Rightarrow> Position \<Rightarrow> Core list" where
  "detectCoresWithNewStone b pl newPosition =
     (let possibleCores =
            [(row newPosition, col newPosition),
             (row newPosition, col newPosition - 1),
             (row newPosition - 1, col newPosition),
             (row newPosition - 1, col newPosition - 1)]
      in [coreAt b (nat startRow) (nat startCol). (startRow, startCol) \<leftarrow> possibleCores,
            startRow \<ge> 0 \<and> startRow < int BOARD_SIZE - 1 \<and>
            startCol \<ge> 0 \<and> startCol < int BOARD_SIZE - 1,
            isValidCore (fourCells b (nat startRow) (nat startCol)) pl])"

section \<open>Resonance\<close>

fun directionVectors :: "Direction \<Rightarrow> Position" where
  "directionVectors Up = \<lparr>row = -1, col = 0\<rparr>"
| "directionVectors Down = \<lparr>row = 1, col = 0\<rparr>"
| "directionVectors Left = \<lparr>row = 0, col = -1\<rparr>"
| "directionVectors Right = \<lparr>row = 0, col = 1\<rparr>"

text \<open>
  The loop of \<open>propagateResonance\<close>, with the number of iterations left as first argument.
  The result lists the positions the loop pushes on \<open>path\<close>, in order; each \<open>break\<close> ends
  the list.
\<close>

fun propagateLoop ::
  "nat \<Rightarrow> Board \<Rightarrow> Position \<Rightarrow> Position \<Rightarrow> Core \<Rightarrow> Player \<Rightarrow> Position list" where
  "propagateLoop 0 b current vector cr corePlayer = []"
| "propagateLoop (Suc n) b current vector cr corePlayer =
     (let next = \<lparr>row = row current + row vector, col = col current + col vector\<rparr>
      in if \<not> isValidPosition next then []
         else if \<not> isPositionInArray next (positions cr) then
           (if stoneType (cellAt b next) = conduitType corePlayer then [next]
            else if stoneType (cellAt b next) \<noteq> Empty then []
            else next # propagateLoop n b next vector cr corePlayer)
         else propagateLoop n b next vector cr corePlayer)"

definition propagateResonance ::
  "Board \<Rightarrow> Position \<Rightarrow> Direction \<Rightarrow> Core \<Rightarrow> Player \<Rightarrow> Position list" where
  "propagateResonance b start dir cr corePlayer =
     propagateLoop 5 b start (directionVectors dir) cr corePlayer"

text \<open>The inner \<open>path.forEach\<close> of \<open>activateResonance\<close>, on the cloned board.\<close>

fun convertPath :: "Player \<Rightarrow> Position list \<Rightarrow> Board \<Rightarrow> Board" where
  "convertPath corePlayer [] newBoard = newBoard"
| "convertPath corePlayer (pos # path) newBoard =
     convertPath corePlayer path
       (if stoneType (cellAt newBoard pos) = conduitType corePlayer
        then setStoneType newBoard pos (keystoneType corePlayer) else newBoard)"

text \<open>
  The outer \<open>directions.forEach\<close>: each direction is propagated on the board as the
  directions before it left it, and its path is stored at the direction's index.
\<close>

fun resonateDirections ::
  "Direction list \<Rightarrow> Position \<Rightarrow> Core \<Rightarrow> Player \<Rightarrow> Board \<Rightarrow> Board \<times> Position list list" where
  "resonateDirections [] focusPosition cr corePlayer newBoard = (newBoard, [])"
| "resonateDirections (dir # dirs) focusPosition cr corePlayer newBoard =
     (let path = propagateResonance newBoard focusPosition dir cr corePlayer;
          (finalBoard, paths) =
             resonateDirections dirs focusPosition cr corePlayer (convertPath corePlayer path newBoard)
      in (finalBoard, path # paths))"

text \<open>
  \<open>activateResonance\<close> returns the pair \<open>(newBoard, resonancePaths)\<close>. Reading
  \<open>core.stones[0].stoneType\<close> of a core without stones throws.
\<close>

definition activateResonance ::
  "Board \<Rightarrow> Core \<Rightarrow> Position \<Rightarrow> error + (Board \<times> Position list list)" where
  "activateResonance b cr focusPosition =
     (case coreStones cr of
        [] \<Rightarrow> Inl TypeError
      | stone0 # _ \<Rightarrow>
          (let corePlayer = (if includesBlack (stoneType stone0) then Black else White)
           in Inr (resonateDirections [Up, Down, Left, Right] focusPosition cr corePlayer b)))"

section \<open>Win check\<close>

text \<open>
  \<open>getCombinations\<close> recurses with \<open>r - 1\<close>. For \<open>r = 0\<close> and a non-empty array the source
  goes on with \<open>r = -1, -2, ...\<close> and never returns (it overflows the stack): that is the
  value \<open>None\<close>. The loop \<open>for (i = 0; i <= array.length - r; i++)\<close> runs
  \<open>array.length + 1 - r\<close> times, not at all when \<open>r\<close> exceeds the length.
\<close>

fun getCombinations :: "'a list \<Rightarrow> nat \<Rightarrow> 'a list list option" where
  "getCombinations array r =
     (if r = 1 then Some (map (\<lambda>item. [item]) array)
      else if r = length array then Some [array]
      else if r = 0 then None
      else map_option concat
             (those (map (\<lambda>i. map_option (map (\<lambda>combination. (array ! i) # combination))
                                    (getCombinations (drop (i + 1) array) (r - 1)))
                         [0..<length array + 1 - r])))"

declare getCombinations.simps [simp del]

definition isConsecutive :: "int list \<Rightarrow> bool" where
  "isConsecutive numbers =
     (let ordered = sort numbers
      in list_all (\<lambda>i. ordered ! i = ordered ! (i - 1) + 1) [1..<length ordered])"

text \<open>
  \<open>isHorizontal\<close> and \<open>isVertical\<close> read \<open>positions[0].row\<close> and \<open>positions[0].col\<close>; on an
  empty array the source throws there. They are only called on the five-element
  combinations (lemma \<open>getCombinations_length\<close> below), so the empty case is never
  evaluated.
\<close>

definition isHorizontal :: "Position list \<Rightarrow> bool" where
  "isHorizontal ps =
     (case ps of [] \<Rightarrow> False
      | first # _ \<Rightarrow> list_all (\<lambda>pos. row pos = row first) ps \<and> isConsecutive (map col ps))"

definition isVertical :: "Position list \<Rightarrow> bool" where
  "isVertical ps =
     (case ps of [] \<Rightarrow> False
      | first # _ \<Rightarrow> list_all (\<lambda>pos. col pos = col first) ps \<and> isConsecutive (map row ps))"

text \<open>
  \<open>positions.sort((a, b) => a.row - b.row)\<close> is a stable sort by row, in place;
  \<open>sorted.every((pos, index) => ...)\<close> tests each element with its index, and is true of
  an empty array (where \<open>first\<close> is \<open>undefined\<close> and never read).
\<close>

definition isMainDiagonal :: "Position list \<Rightarrow> bool" where
  "isMainDiagonal ps =
     (case sort_key row ps of [] \<Rightarrow> True
      | first # rest \<Rightarrow>
          list_all (\<lambda>(index, pos). row pos = row first + int index \<and> col pos = col first + int index)
                   (enumerate 0 (first # rest)))"

definition isAntiDiagonal :: "Position list \<Rightarrow> bool" where
  "isAntiDiagonal ps =
     (case sort_key row ps of [] \<Rightarrow> True
      | first # rest \<Rightarrow>
          list_all (\<lambda>(index, pos). row pos = row first + int index \<and> col pos = col first - int index)
                   (enumerate 0 (first # rest)))"

text \<open>
  \<open>isMainDiagonal\<close> has sorted the array in place when \<open>isAntiDiagonal\<close> reads it.
\<close>

definition isDiagonal :: "Position list \<Rightarrow> bool" where
  "isDiagonal ps = (isMainDiagonal ps \<or> isAntiDiagonal (sort_key row ps))"

definition isInLine :: "Position list \<Rightarrow> bool" where
  "isInLine ps = (isHorizontal ps \<or> isVertical ps \<or> isDiagonal ps)"

text \<open>
  \<open>getCombinations\<close> is called with \<open>r = 5\<close> on at least five positions, where it returns
  (lemma \<open>getCombinations_returns\<close>); the \<open>None\<close> branch is never taken.
\<close>

definition checkWinCondition :: "Board \<Rightarrow> Player \<Rightarrow> bool" where
  "checkWinCondition b pl =
     (let keystonePositions = getKeystoneStones b pl
      in if length keystonePositions < 5 then False
         else (case getCombinations keystonePositions 5 of
                 None \<Rightarrow> False
               | Some combinations \<Rightarrow> list_ex isInLine combinations))"

section \<open>Store state (stores/gameStore)\<close>

record ResonanceInfo =
  resonanceCore :: Core
  focusPosition :: Position
  resonancePaths :: "Position list list"

record LShapeInfo =
  lShape :: LShape
  convertedStoneIndex :: nat

record GameMove =
  moveNumber :: nat
  player :: Player
  moveType :: MoveType
  movePosition :: Position
  previousBoard :: Board
  currentBoard :: Board
  resonanceInfo :: "ResonanceInfo option"
  lShapeInfo :: "LShapeInfo option"

text \<open>
  An event of the log. Its \<open>id\<close> (from \<open>Math.random\<close>), its \<open>timestamp\<close> (from \<open>Date.now\<close>)
  and its display \<open>message\<close> are not part of the model.
\<close>

record EventDetails =
  detailPosition :: "Position option"
  detailCore :: "Core option"
  detailResonancePaths :: "Position list list option"
  detailConvertedStones :: "Position list option"
  detailLShape :: "LShape option"

record GameEvent =
  eventType :: GameEventType
  eventPlayer :: Player
  details :: "EventDetails option"

record GameState =
  board :: Board
  currentPlayer :: Player
  gamePhase :: GamePhase
  gameStatus :: GameStatus
  selectedLShape :: "LShape option"
  selectedCores :: "Core list"
  selectedCore :: "Core option"
  corePlayer :: "Player option"
  hoveredPosition :: "Position option"
  moveHistory :: "GameMove list"
  currentMoveIndex :: nat
  isNotationMode :: bool
  eventLog :: "GameEvent list"
  isHistoryMode :: bool
  historyIndex :: nat
  availableMoves :: "Position list"
  convertibleStones :: "Position list"
  isAnimating :: bool

definition initialState :: GameState where
  "initialState =
     \<lparr>board = createEmptyBoard, currentPlayer = Black, gamePhase = Placing, gameStatus = Playing,
      selectedLShape = None, selectedCores = [], selectedCore = None, corePlayer = None,
      hoveredPosition = None, moveHistory = [], currentMoveIndex = 0, isNotationMode = False,
      eventLog = [], isHistoryMode = False, historyIndex = 0, availableMoves = [],
      convertibleStones = [], isAnimating = False\<rparr>"

definition noDetails :: EventDetails where
  "noDetails = \<lparr>detailPosition = None, detailCore = None, detailResonancePaths = None,
                 detailConvertedStones = None, detailLShape = None\<rparr>"

definition addEvent :: "GameState \<Rightarrow> GameEvent \<Rightarrow> GameState" where
  "addEvent s event = s\<lparr>eventLog := eventLog s @ [event]\<rparr>"

text \<open>
  \<open>board[pos.row][pos.col]\<close> is a cell exactly when the row and the column exist; reading
  or writing a property of it throws otherwise. On a 17x17 board this is \<open>isValidPosition\<close>.
\<close>

definition inBoard :: "Board \<Rightarrow> Position \<Rightarrow> bool" where
  "inBoard b pos =
     (0 \<le> row pos \<and> nat (row pos) < length b \<and>
      0 \<le> col pos \<and> nat (col pos) < length (b ! nat (row pos)))"

definition otherPlayer :: "Player \<Rightarrow> Player" where
  "otherPlayer pl = (if pl = Black then White else Black)"

text \<open>The template string \<open>`${currentPlayer}Win`\<close>.\<close>

fun winStatus :: "Player \<Rightarrow> GameStatus" where
  "winStatus Black = BlackWin"
| "winStatus White = WhiteWin"

definition updateAvailableMoves :: "GameState \<Rightarrow> GameState" where
  "updateAvailableMoves s =
     s\<lparr>availableMoves :=
         [\<lparr>row = int r, col = int c\<rparr>. r \<leftarrow> [0..<17], c \<leftarrow> [0..<17],
            stoneType (board s ! r ! c) = Empty]\<rparr>"

definition updateConvertibleStones :: "GameState \<Rightarrow> GameState" where
  "updateConvertibleStones s =
     (let lShapes = detectLShapes (board s) (currentPlayer s)
      in s\<lparr>convertibleStones :=
             foldl (\<lambda>acc stone.
                      if list_ex (\<lambda>pos. row pos = row stone \<and> col pos = col stone) acc
                      then acc else acc @ [stone])
                   [] (concat (map stones lShapes))\<rparr>)"

section \<open>Notation (utils/notationUtils and updateNotation)\<close>

definition getResonanceDirection ::
  "Position \<Rightarrow> Position \<Rightarrow> Position list list \<Rightarrow> Direction option" where
  "getResonanceDirection focus targetPosition paths =
     map_option fst
       (find (\<lambda>(dir, path). list_ex (\<lambda>pos. row pos = row targetPosition \<and> col pos = col targetPosition) path)
             (zip [Up, Down, Left, Right] paths))"

definition createNotation :: "GameMove \<Rightarrow> Position \<Rightarrow> NotationInfo option" where
  "createNotation move pos =
     (case moveType move of
        Place \<Rightarrow> Some \<lparr>notationMoveNumber = moveNumber move, notationType = Normal,
                       direction = None, secondaryNotation = None\<rparr>
      | Convert \<Rightarrow> Some \<lparr>notationMoveNumber = moveNumber move, notationType = Conversion,
                         direction = None, secondaryNotation = None\<rparr>
      | ResonanceMove \<Rightarrow>
          (case resonanceInfo move of
             None \<Rightarrow> None
           | Some info \<Rightarrow>
               if row pos = row (focusPosition info) \<and> col pos = col (focusPosition info)
               then Some \<lparr>notationMoveNumber = moveNumber move, notationType = Focus,
                          direction = None, secondaryNotation = None\<rparr>
               else (case getResonanceDirection (focusPosition info) pos (resonancePaths info) of
                       None \<Rightarrow> None
                     | Some dir \<Rightarrow>
                         Some \<lparr>notationMoveNumber = moveNumber move, notationType = Resonance,
                               direction = Some dir, secondaryNotation = None\<rparr>)))"

definition affectedPositions :: "GameMove \<Rightarrow> Position list" where
  "affectedPositions move =
     (let direct = [movePosition move];
          withLShape = (case lShapeInfo move of
                          None \<Rightarrow> direct
                        | Some info \<Rightarrow> direct @ stones (lShape info))
      in case resonanceInfo move of
           None \<Rightarrow> withLShape
         | Some info \<Rightarrow>
             foldl (\<lambda>acc pos.
                      if list_ex (\<lambda>q. row q = row pos \<and> col q = col pos) acc
                      then acc else acc @ [pos])
                   (withLShape @ [focusPosition info]) (concat (resonancePaths info)))"

definition setNotation :: "Board \<Rightarrow> Position \<Rightarrow> NotationInfo \<Rightarrow> Board" where
  "setNotation b pos n =
     b[nat (row pos) := (b ! nat (row pos))[nat (col pos) := (cellAt b pos)\<lparr>cellNotation := Some n\<rparr>]]"

text \<open>The body of \<open>affectedPositions.forEach\<close> in \<open>updateNotation\<close>, for one position.\<close>

definition notateCell :: "GameMove \<Rightarrow> Board \<Rightarrow> Position \<Rightarrow> error + Board" where
  "notateCell move newBoard pos =
     (if \<not> inBoard newBoard pos then Inl TypeError
      else if stoneType (cellAt newBoard pos) \<noteq> Empty then
        (case createNotation move pos of
           None \<Rightarrow> Inr newBoard
         | Some created \<Rightarrow>
             (case cellNotation (cellAt newBoard pos) of
                None \<Rightarrow> Inr (setNotation newBoard pos created)
              | Some old \<Rightarrow>
                  if moveType move = Convert \<or> moveType move = ResonanceMove then
                    (let kept = old\<lparr>secondaryNotation :=
                                      Some \<lparr>secondaryMoveNumber = notationMoveNumber created,
                                            secondaryNotationType = notationType created\<rparr>\<rparr>
                     in Inr (setNotation newBoard pos
                               (case direction created of
                                  None \<Rightarrow> kept
                                | Some dir \<Rightarrow> kept\<lparr>direction := Some dir\<rparr>)))
                  else Inr (setNotation newBoard pos created)))
      else Inr newBoard)"

fun notateCells :: "GameMove \<Rightarrow> Position list \<Rightarrow> Board \<Rightarrow> error + Board" where
  "notateCells move [] newBoard = Inr newBoard"
| "notateCells move (pos # ps) newBoard =
     (case notateCell move newBoard pos of
        Inl e \<Rightarrow> Inl e
      | Inr nextBoard \<Rightarrow> notateCells move ps nextBoard)"

definition updateNotation :: "GameMove \<Rightarrow> error + Board" where
  "updateNotation move = notateCells move (affectedPositions move) (currentBoard move)"

section \<open>Commands of the store\<close>

text \<open>
  A command takes the store's state and returns \<open>Inr\<close> of the state it leaves, or \<open>Inl\<close> of
  the error it throws. A command that returns early returns the state it was given.
\<close>

definition completeTurn :: "GameState \<Rightarrow> GameMove \<Rightarrow> error + GameState" where
  "completeTurn s move =
     (case updateNotation move of
        Inl e \<Rightarrow> Inl e
      | Inr updatedBoard \<Rightarrow>
          (let hasWon = checkWinCondition updatedBoard (currentPlayer s);
               nextPlayer = (if currentPlayer s = Black then White else Black);
               s1 = s\<lparr>board := updatedBoard,
                      currentPlayer := nextPlayer,
                      gamePhase := Placing,
                      selectedLShape := None,
                      selectedCores := [],
                      selectedCore := None,
                      corePlayer := None,
                      moveHistory := moveHistory s @ [move],
                      currentMoveIndex := currentMoveIndex s + 1,
                      gameStatus := (if hasWon then winStatus (currentPlayer s) else Playing)\<rparr>;
               s2 = updateConvertibleStones (updateAvailableMoves s1)
           in Inr (if \<not> hasWon
                   then addEvent s2 \<lparr>eventType = TurnStarted, eventPlayer = nextPlayer, details = None\<rparr>
                   else s2)))"

definition placeStone :: "GameState \<Rightarrow> Position \<Rightarrow> error + GameState" where
  "placeStone s pos =
     (if gameStatus s \<noteq> Playing \<or> isHistoryMode s then Inr s
      else if \<not> inBoard (board s) pos then Inl TypeError
      else
        (let newBoard = setStoneType (board s) pos (conduitType (currentPlayer s));
             s1 = addEvent s \<lparr>eventType = StonePlaced, eventPlayer = currentPlayer s,
                               details = Some (noDetails\<lparr>detailPosition := Some pos\<rparr>)\<rparr>;
             move = \<lparr>moveNumber = currentMoveIndex s1 + 1, player = currentPlayer s,
                     moveType = Place, movePosition = pos, previousBoard = board s,
                     currentBoard = newBoard, resonanceInfo = None, lShapeInfo = None\<rparr>;
             cores = detectCoresWithNewStone newBoard (currentPlayer s) pos
         in if length cores > 0 then
              (let s2 = addEvent s1 \<lparr>eventType = CoreFormed, eventPlayer = currentPlayer s,
                                      details = Some (noDetails\<lparr>detailCore := Some (cores ! 0)\<rparr>)\<rparr>
               in case updateNotation move of
                    Inl e \<Rightarrow> Inl e
                  | Inr updatedBoard \<Rightarrow>
                      Inr (s2\<lparr>board := updatedBoard,
                              gamePhase := Resonating,
                              selectedCores := cores,
                              selectedCore := None,
                              corePlayer := Some (currentPlayer s),
                              moveHistory := moveHistory s2 @ [move],
                              currentMoveIndex := currentMoveIndex s2 + 1\<rparr>))
            else completeTurn s1 move))"

text \<open>
  \<open>lShape.stones[stoneIndex]\<close> is \<open>undefined\<close> outside the array, and reading its \<open>row\<close>
  throws.
\<close>

definition convertLShape :: "GameState \<Rightarrow> LShape \<Rightarrow> nat \<Rightarrow> error + GameState" where
  "convertLShape s shape stoneIndex =
     (if gameStatus s \<noteq> Playing \<or> isHistoryMode s then Inr s
      else if \<not> stoneIndex < length (stones shape) then Inl TypeError
      else
        (let stonePosition = stones shape ! stoneIndex
         in if \<not> inBoard (board s) stonePosition then Inl TypeError
            else
              (let newBoard = setStoneType (board s) stonePosition (keystoneType (currentPlayer s));
                   move = \<lparr>moveNumber = currentMoveIndex s + 1, player = currentPlayer s,
                           moveType = Convert, movePosition = stonePosition,
                           previousBoard = board s, currentBoard = newBoard,
                           resonanceInfo = None,
                           lShapeInfo = Some \<lparr>lShape = shape, convertedStoneIndex = stoneIndex\<rparr>\<rparr>
               in completeTurn s move)))"

definition selectCore :: "GameState \<Rightarrow> Core \<Rightarrow> GameState" where
  "selectCore s cr = s\<lparr>selectedCore := Some cr, gamePhase := SelectingFocus\<rparr>"

definition selectFocusPosition :: "GameState \<Rightarrow> Position \<Rightarrow> error + GameState" where
  "selectFocusPosition s pos =
     (case (selectedCore s, corePlayer s) of
        (Some cr, Some owner) \<Rightarrow>
          if \<not> inBoard (board s) pos then Inl TypeError
          else
            (let playerConduit = conduitType owner;
                 focusBoard = (if stoneType (cellAt (board s) pos) = playerConduit
                               then setStoneType (board s) pos (keystoneType owner)
                               else board s)
             in case activateResonance focusBoard cr pos of
                  Inl e \<Rightarrow> Inl e
                | Inr (newBoard, paths) \<Rightarrow>
                    (let s1 = addEvent s
                                \<lparr>eventType = ResonanceActivated, eventPlayer = owner,
                                 details = Some (noDetails\<lparr>detailPosition := Some pos,
                                                            detailCore := Some cr,
                                                            detailResonancePaths := Some paths\<rparr>)\<rparr>;
                         convertedStones =
                           (if stoneType (cellAt (board s) pos) = playerConduit then [pos] else []) @
                           filter (\<lambda>q. includesKeystone (stoneType (cellAt newBoard q)) \<and>
                                        includesConduit (stoneType (cellAt (board s) q)))
                                  (concat paths);
                         s2 = (if length convertedStones > 0
                               then addEvent s1
                                      \<lparr>eventType = StoneConverted, eventPlayer = owner,
                                       details = Some (noDetails\<lparr>detailConvertedStones :=
                                                                   Some convertedStones\<rparr>)\<rparr>
                               else s1);
                         move = \<lparr>moveNumber = currentMoveIndex s2 + 1, player = owner,
                                 moveType = ResonanceMove, movePosition = pos,
                                 previousBoard = board s, currentBoard = newBoard,
                                 resonanceInfo = Some \<lparr>resonanceCore = cr, focusPosition = pos,
                                                       resonancePaths = paths\<rparr>,
                                 lShapeInfo = None\<rparr>
                     in completeTurn s2 move))
      | _ \<Rightarrow> Inr s)"

text \<open>The store's own \<open>activateResonance\<close> action (for direct calls).\<close>

definition activateResonanceAction :: "GameState \<Rightarrow> Core \<Rightarrow> Position \<Rightarrow> error + GameState" where
  "activateResonanceAction s cr focus =
     (case activateResonance (board s) cr focus of
        Inl e \<Rightarrow> Inl e
      | Inr (newBoard, paths) \<Rightarrow>
          completeTurn s
            \<lparr>moveNumber = currentMoveIndex s + 1, player = currentPlayer s,
             moveType = ResonanceMove, movePosition = focus,
             previousBoard = board s, currentBoard = newBoard,
             resonanceInfo = Some \<lparr>resonanceCore = cr, focusPosition = focus,
                                   resonancePaths = paths\<rparr>,
             lShapeInfo = None\<rparr>)"

section \<open>Undo, redo and confirm-undo\<close>

text \<open>
  \<open>moveHistory[i]\<close> is \<open>undefined\<close> outside the array, and reading a property of it throws
  before \<open>set\<close> is called.
\<close>

text \<open>
  The fields \<open>undo\<close> (in both branches) and \<open>redo\<close> pass to \<open>set\<close>: the cursor, the board to
  show, the player after the target move, and the cleared selection.
\<close>

definition restoreView :: "GameState \<Rightarrow> nat \<Rightarrow> Board \<Rightarrow> GameMove \<Rightarrow> GameState" where
  "restoreView s index shown targetMove =
     s\<lparr>historyIndex := index,
       board := shown,
       currentPlayer := (if player targetMove = Black then White else Black),
       gamePhase := Placing,
       selectedLShape := None,
       selectedCores := [],
       selectedCore := None,
       corePlayer := None\<rparr>"

definition undo :: "GameState \<Rightarrow> error + GameState" where
  "undo s =
     (if isHistoryMode s then
        (if historyIndex s > 0 then
           (if historyIndex s - 1 < length (moveHistory s) then
              (let targetMove = moveHistory s ! (historyIndex s - 1)
               in Inr (restoreView s (historyIndex s - 1) (previousBoard targetMove) targetMove))
            else Inl TypeError)
         else Inr s)
      else
        (if length (moveHistory s) > 0 then
           (let targetMove = moveHistory s ! (length (moveHistory s) - 1)
            in Inr ((restoreView s (length (moveHistory s) - 1) (previousBoard targetMove) targetMove)
                      \<lparr>isHistoryMode := True\<rparr>))
         else Inr s))"

definition redo :: "GameState \<Rightarrow> error + GameState" where
  "redo s =
     (if isHistoryMode s \<and> int (historyIndex s) < int (length (moveHistory s)) - 1 then
        (let targetMove = moveHistory s ! (historyIndex s + 1)
         in Inr (restoreView s (historyIndex s + 1) (currentBoard targetMove) targetMove))
      else Inr s)"

definition confirmUndo :: "GameState \<Rightarrow> error + GameState" where
  "confirmUndo s =
     (if isHistoryMode s then
        (if historyIndex s < length (moveHistory s) then
           (let targetMove = moveHistory s ! historyIndex s;
                newHistory = take (historyIndex s + 1) (moveHistory s);
                nextPlayer = (if player targetMove = Black then White else Black);
                s1 = s\<lparr>moveHistory := newHistory,
                       currentMoveIndex := historyIndex s,
                       currentPlayer := nextPlayer,
                       isHistoryMode := False,
                       historyIndex := 0,
                       gamePhase := Placing,
                       selectedLShape := None,
                       selectedCores := [],
                       selectedCore := None,
                       corePlayer := None,
                       gameStatus := Playing\<rparr>;
                s2 = updateConvertibleStones (updateAvailableMoves s1)
            in Inr (addEvent s2 \<lparr>eventType = TurnStarted, eventPlayer = nextPlayer, details = None\<rparr>))
         else Inl TypeError)
      else Inr s)"

section \<open>Example boards\<close>

text \<open>The stone types of a board, cell by cell: all that the rules read.\<close>

definition stoneGrid :: "Board \<Rightarrow> StoneType list list" where
  "stoneGrid b = map (map stoneType) b"

text \<open>An empty board with the listed stones put on it.\<close>

definition boardWith :: "(int \<times> int \<times> StoneType) list \<Rightarrow> Board" where
  "boardWith xs =
     foldl (\<lambda>b (r, c, st). setStoneType b \<lparr>row = r, col = c\<rparr> st) createEmptyBoard xs"

text \<open>
  A position in the resonating phase: black has just completed the core at the top-left
  corner, and a core is waiting to be selected.
\<close>

definition coreBoard :: Board where
  "coreBoard =
     boardWith [(0, 0, BlackConduit), (5, 5, WhiteConduit), (0, 1, BlackConduit),
                (5, 6, WhiteConduit), (1, 0, BlackConduit), (6, 5, WhiteConduit),
                (1, 1, BlackConduit)]"

definition resonatingState :: GameState where
  "resonatingState =
     initialState\<lparr>board := coreBoard, gamePhase := Resonating, corePlayer := Some Black\<rparr>"

text \<open>A position where a white keystone lies on \<open>(3, 3)\<close> and black is to move.\<close>

definition occupiedState :: GameState where
  "occupiedState = initialState\<lparr>board := boardWith [(3, 3, WhiteKeystone)]\<rparr>"

text \<open>
  A position where black has four keystones in row 0 and a bent triple of conductors next
  to them, and the move that converts the triple's stone on \<open>(0, 4)\<close>: the move
  \<open>convertLShape\<close> builds for that triple and index 0.
\<close>

definition winningBoard :: Board where
  "winningBoard =
     boardWith [(0, 0, BlackKeystone), (0, 1, BlackKeystone), (0, 2, BlackKeystone),
                (0, 3, BlackKeystone), (0, 4, BlackConduit), (1, 4, BlackConduit),
                (1, 5, BlackConduit)]"

definition winningState :: GameState where
  "winningState = initialState\<lparr>board := winningBoard\<rparr>"

definition winningShape :: LShape where
  "winningShape =
     \<lparr>stones = [\<lparr>row = 0, col = 4\<rparr>, \<lparr>row = 1, col = 4\<rparr>, \<lparr>row = 1, col = 5\<rparr>], lshapeType = L\<rparr>"

definition winningMove :: GameMove where
  "winningMove =
     \<lparr>moveNumber = 1, player = Black, moveType = Convert, movePosition = \<lparr>row = 0, col = 4\<rparr>,
      previousBoard = winningBoard,
      currentBoard = setStoneType winningBoard \<lparr>row = 0, col = 4\<rparr> BlackKeystone,
      resonanceInfo = None,
      lShapeInfo = Some \<lparr>lShape = winningShape, convertedStoneIndex = 0\<rparr>\<rparr>"

section \<open>The remaining commands and the reachable states\<close>

definition setHoveredPosition :: "GameState \<Rightarrow> Position option \<Rightarrow> GameState" where
  "setHoveredPosition s pos = s\<lparr>hoveredPosition := pos\<rparr>"

definition toggleNotationMode :: "GameState \<Rightarrow> GameState" where
  "toggleNotationMode s = s\<lparr>isNotationMode := \<not> isNotationMode s\<rparr>"

definition clearEventLog :: "GameState \<Rightarrow> GameState" where
  "clearEventLog s = s\<lparr>eventLog := []\<rparr>"

text \<open>
  \<open>resetGame\<close> sets every field to its initial value at once; the update of the derived
  lists and the first event follow from a timer callback, modelled as a step of its own.
\<close>

definition resetGame :: "GameState \<Rightarrow> GameState" where
  "resetGame s = initialState"

definition resetGameDeferred :: "GameState \<Rightarrow> GameState" where
  "resetGameDeferred s =
     addEvent (updateConvertibleStones (updateAvailableMoves s))
       \<lparr>eventType = TurnStarted, eventPlayer = Black, details = None\<rparr>"

text \<open>
  The states the store can be in: the initial one, and every state a command leaves when
  it returns. (A command that throws leaves the state it found, apart from events already
  logged.)
\<close>

inductive reachable :: "GameState \<Rightarrow> bool" where
  r_initial: "reachable initialState"
| r_placeStone: "reachable s \<Longrightarrow> placeStone s pos = Inr s' \<Longrightarrow> reachable s'"
| r_convertLShape: "reachable s \<Longrightarrow> convertLShape s shape stoneIndex = Inr s' \<Longrightarrow> reachable s'"
| r_selectCore: "reachable s \<Longrightarrow> reachable (selectCore s cr)"
| r_selectFocusPosition: "reachable s \<Longrightarrow> selectFocusPosition s pos = Inr s' \<Longrightarrow> reachable s'"
| r_activateResonance: "reachable s \<Longrightarrow> activateResonanceAction s cr pos = Inr s' \<Longrightarrow> reachable s'"
| r_undo: "reachable s \<Longrightarrow> undo s = Inr s' \<Longrightarrow> reachable s'"
| r_redo: "reachable s \<Longrightarrow> redo s = Inr s' \<Longrightarrow> reachable s'"
| r_confirmUndo: "reachable s \<Longrightarrow> confirmUndo s = Inr s' \<Longrightarrow> reachable s'"
| r_setHoveredPosition: "reachable s \<Longrightarrow> reachable (setHoveredPosition s hovered)"
| r_toggleNotationMode: "reachable s \<Longrightarrow> reachable (toggleNotationMode s)"
| r_clearEventLog: "reachable s \<Longrightarrow> reachable (clearEventLog s)"
| r_resetGame: "reachable s \<Longrightarrow> reachable (resetGame s)"
| r_resetGameDeferred: "reachable s \<Longrightarrow> reachable (resetGameDeferred s)"
| r_updateAvailableMoves: "reachable s \<Longrightarrow> reachable (updateAvailableMoves s)"
| r_updateConvertibleStones: "reachable s \<Longrightarrow> reachable (updateConvertibleStones s)"
| r_addEvent: "reachable s \<Longrightarrow> reachable (addEvent s event)"

text \<open>
  In history mode the cursor points at a recorded move. Every reachable state has this
  property (lemma \<open>reachable_historyInvariant\<close>).
\<close>

definition historyInvariant :: "GameState \<Rightarrow> bool" where
  "historyInvariant s = (isHistoryMode s \<longrightarrow> historyIndex s < length (moveHistory s))"

text \<open>
  The board on show and every board recorded in the history have 17 rows of 17 cells.
  Every reachable state has this property (lemma \<open>reachable_boardInvariant\<close>).
\<close>

definition boardInvariant :: "GameState \<Rightarrow> bool" where
  "boardInvariant s =
     (wf_board (board s) \<and>
      list_all (\<lambda>move. wf_board (previousBoard move) \<and> wf_board (currentBoard move))
               (moveHistory s))"

text \<open>
  A position after three placements, the same position after one \<open>undo\<close> (history mode,
  cursor on the last move) and after two (cursor on the second move).
\<close>

definition playedState :: GameState where
  "playedState =
     initialState
       \<lparr>board := boardWith [(0, 0, BlackConduit), (5, 5, WhiteConduit), (0, 1, BlackConduit)],
        currentPlayer := White,
        moveHistory :=
          [\<lparr>moveNumber = 1, player = Black, moveType = Place, movePosition = \<lparr>row = 0, col = 0\<rparr>,
            previousBoard = createEmptyBoard,
            currentBoard = boardWith [(0, 0, BlackConduit)],
            resonanceInfo = None, lShapeInfo = None\<rparr>,
           \<lparr>moveNumber = 2, player = White, moveType = Place, movePosition = \<lparr>row = 5, col = 5\<rparr>,
            previousBoard = boardWith [(0, 0, BlackConduit)],
            currentBoard = boardWith [(0, 0, BlackConduit), (5, 5, WhiteConduit)],
            resonanceInfo = None, lShapeInfo = None\<rparr>,
           \<lparr>moveNumber = 3, player = Black, moveType = Place, movePosition = \<lparr>row = 0, col = 1\<rparr>,
            previousBoard = boardWith [(0, 0, BlackConduit), (5, 5, WhiteConduit)],
            currentBoard = boardWith [(0, 0, BlackConduit), (5, 5, WhiteConduit), (0, 1, BlackConduit)],
            resonanceInfo = None, lShapeInfo = None\<rparr>],
        currentMoveIndex := 3\<rparr>"

definition undoneOnce :: GameState where
  "undoneOnce = projr (undo playedState)"

definition undoneTwice :: GameState where
  "undoneTwice = projr (undo undoneOnce)"

section \<open>Auxiliary notions for the pattern claims\<close>

text \<open>
  The cores one candidate anchor contributes to \<open>detectCoresWithNewStone\<close>: the body of its
  \<open>possibleCores.forEach\<close>.
\<close>

definition candidateCores :: "Board \<Rightarrow> Player \<Rightarrow> int \<Rightarrow> int \<Rightarrow> Core list" where
  "candidateCores b pl startRow startCol =
     (if startRow \<ge> 0 \<and> startRow < int BOARD_SIZE - 1 \<and> startCol \<ge> 0 \<and> startCol < int BOARD_SIZE - 1
      then (if isValidCore (fourCells b (nat startRow) (nat startCol)) pl
            then [coreAt b (nat startRow) (nat startCol)] else [])
      else [])"

text \<open>How many of the three pairwise adjacency checks of a triple are true.\<close>

definition adjacentPairs :: "Position \<Rightarrow> Position \<Rightarrow> Position \<Rightarrow> nat" where
  "adjacentPairs a b c =
     (if areAdjacent a b then 1 else 0) + (if areAdjacent b c then 1 else 0) +
     (if areAdjacent a c then 1 else 0)"

text \<open>Six black keystones in a row, and nothing else.\<close>

definition sixRunBoard :: Board where
  "sixRunBoard =
     boardWith [(0, 0, BlackKeystone), (0, 1, BlackKeystone), (0, 2, BlackKeystone),
                (0, 3, BlackKeystone), (0, 4, BlackKeystone), (0, 5, BlackKeystone)]"

section \<open>Auxiliary notions for the resonance claims\<close>

text \<open>The position \<open>k\<close> steps from \<open>pos\<close> along \<open>vector\<close>.\<close>

definition stepsFrom :: "Position \<Rightarrow> Position \<Rightarrow> int \<Rightarrow> Position" where
  "stepsFrom pos vector k = \<lparr>row = row pos + k * row vector, col = col pos + k * col vector\<rparr>"

text \<open>The index of a direction in the \<open>directions\<close> array of \<open>activateResonance\<close>.\<close>

fun directionIndex :: "Direction \<Rightarrow> nat" where
  "directionIndex Up = 0"
| "directionIndex Down = 1"
| "directionIndex Left = 2"
| "directionIndex Right = 3"

text \<open>
  A core as the store holds it while a resonance is pending. Its stored cells are the
  cells of the board it was detected on, so the owner \<open>activateResonance\<close> reads from the
  first of them is the core's owner; on the board at hand its positions hold the owner's
  stones. (The stored cells may differ from the board's in their notation, and in being a
  conductor or already a keystone.) Every core \<open>detectCores\<close> returns for a board is held
  on that board (lemma \<open>detectCores_coreHeldBy\<close>), and every core the store offers after
  \<open>placeStone\<close> is held on the board \<open>selectFocusPosition\<close> hands to \<open>activateResonance\<close>
  (lemma \<open>store_resonance_core_held\<close>).
\<close>

definition coreHeldBy :: "Board \<Rightarrow> Core \<Rightarrow> Player \<Rightarrow> bool" where
  "coreHeldBy b cr owner =
     (case coreStones cr of
        [] \<Rightarrow> False
      | stone0 # _ \<Rightarrow>
          (if includesBlack (stoneType stone0) then Black else White) = owner \<and>
          list_all (\<lambda>p. stoneType (cellAt b p) = conduitType owner \<or>
                         stoneType (cellAt b p) = keystoneType owner)
                   (positions cr))"

text \<open>
  Black has three conductors of a 2x2 square at the corner, white a conductor right of the
  cell \<open>(0, 1)\<close>, and black a conductor behind the white one. \<open>pendingState\<close> is the state
  \<open>placeStone\<close> leaves when black completes the square on \<open>(1, 1)\<close>, \<open>pendingCore\<close> the core
  it offers, and \<open>focusedBoard\<close> the board \<open>selectFocusPosition\<close> passes to
  \<open>activateResonance\<close> for the focal position \<open>(0, 1)\<close>.
\<close>

definition coreReadyState :: GameState where
  "coreReadyState =
     initialState
       \<lparr>board := boardWith [(0, 0, BlackConduit), (0, 1, BlackConduit), (1, 0, BlackConduit),
                            (0, 2, WhiteConduit), (0, 3, BlackConduit)]\<rparr>"

definition pendingState :: GameState where
  "pendingState = projr (placeStone coreReadyState \<lparr>row = 1, col = 1\<rparr>)"

definition pendingCore :: Core where
  "pendingCore = hd (selectedCores pendingState)"

definition focusedBoard :: Board where
  "focusedBoard =
     (if stoneType (cellAt (board pendingState) \<lparr>row = 0, col = 1\<rparr>) = conduitType Black
      then setStoneType (board pendingState) \<lparr>row = 0, col = 1\<rparr> (keystoneType Black)
      else board pendingState)"

text \<open>
  The resonating position after the core at the corner is selected, and the same position
  with a keystone already on the corner cell.
\<close>

definition focusState :: GameState where
  "focusState = selectCore resonatingState (coreAt coreBoard 0 0)"

definition keystoneFocusState :: GameState where
  "keystoneFocusState = focusState\<lparr>board := setStoneType coreBoard \<lparr>row = 0, col = 0\<rparr> BlackKeystone\<rparr>"

section \<open>Board lemmas\<close>

lemma length_stoneGrid: "length (stoneGrid b) = length b"
  by (simp add: stoneGrid_def)

lemma inBoard_wf: "wf_board b \<Longrightarrow> inBoard b pos = isValidPosition pos"
  by (auto simp: wf_board_def inBoard_def isValidPosition_def list_all_length)

lemma inBoard_stoneGrid: "stoneGrid b = stoneGrid b' \<Longrightarrow> inBoard b pos = inBoard b' pos"
proof -
  assume h: "stoneGrid b = stoneGrid b'"
  have l: "length b = length b'" using h length_stoneGrid by metis
  have "\<And>i. i < length b \<Longrightarrow> length (b ! i) = length (b' ! i)"
  proof -
    fix i assume "i < length b"
    then have "stoneGrid b ! i = map stoneType (b ! i)" "stoneGrid b' ! i = map stoneType (b' ! i)"
      using l by (simp_all add: stoneGrid_def)
    then show "length (b ! i) = length (b' ! i)" using h by (metis length_map)
  qed
  then show ?thesis using l by (auto simp: inBoard_def)
qed

lemma stoneType_cellAt: "inBoard b pos \<Longrightarrow> stoneType (cellAt b pos) = stoneGrid b ! nat (row pos) ! nat (col pos)"
  by (simp add: inBoard_def cellAt_def stoneGrid_def)

lemma map_update_same: "f v = f (xs ! i) \<Longrightarrow> map f (xs[i := v]) = map f xs"
proof (cases "i < length xs")
  case True
  assume "f v = f (xs ! i)"
  then show ?thesis using True by (simp add: map_update list_update_same_conv)
next
  case False
  then have "length xs \<le> i" by simp
  then have "xs[i := v] = xs" by (rule list_update_beyond)
  then show ?thesis by simp
qed

lemma stoneGrid_setNotation: "stoneGrid (setNotation b pos n) = stoneGrid b"
proof -
  let ?r = "nat (row pos)" and ?c = "nat (col pos)"
  have "map stoneType ((b ! ?r)[?c := (b ! ?r ! ?c)\<lparr>cellNotation := Some n\<rparr>]) = map stoneType (b ! ?r)"
    by (rule map_update_same) simp
  then show ?thesis
    unfolding stoneGrid_def setNotation_def cellAt_def
    by (intro map_update_same) simp
qed

lemma wf_board_stoneGrid: "stoneGrid b = stoneGrid b' \<Longrightarrow> wf_board b = wf_board b'"
proof -
  assume h: "stoneGrid b = stoneGrid b'"
  have "map length b = map length (stoneGrid b)" "map length b' = map length (stoneGrid b')"
    by (simp_all add: stoneGrid_def comp_def)
  then have m: "map length b = map length b'" using h by simp
  have "\<And>x. wf_board x = (map length x = replicate BOARD_SIZE BOARD_SIZE)"
    by (auto simp: wf_board_def list_all_length list_eq_iff_nth_eq)
  then show ?thesis using m by simp
qed

lemma notateCell_stoneGrid: "notateCell move b pos = Inr b' \<Longrightarrow> stoneGrid b' = stoneGrid b"
  by (auto simp: notateCell_def stoneGrid_setNotation Let_def split: if_splits option.splits)

lemma notateCell_returns: "inBoard b pos \<Longrightarrow> \<exists>b'. notateCell move b pos = Inr b'"
  by (auto simp: notateCell_def Let_def split: option.splits)

lemma notateCells_stoneGrid: "notateCells move ps b = Inr b' \<Longrightarrow> stoneGrid b' = stoneGrid b"
proof (induction ps arbitrary: b)
  case Nil
  then show ?case by simp
next
  case (Cons p ps)
  then show ?case by (auto split: sum.splits dest: notateCell_stoneGrid)
qed

lemma notateCells_returns: "list_all (inBoard b) ps \<Longrightarrow> \<exists>b'. notateCells move ps b = Inr b'"
proof (induction ps arbitrary: b)
  case Nil
  then show ?case by simp
next
  case (Cons p ps)
  then obtain b1 where b1: "notateCell move b p = Inr b1" using notateCell_returns by fastforce
  then have "stoneGrid b1 = stoneGrid b" by (rule notateCell_stoneGrid)
  then have "inBoard b1 = inBoard b" by (intro ext inBoard_stoneGrid)
  then have "list_all (inBoard b1) ps" using Cons.prems by simp
  then show ?case using Cons.IH [of b1] b1 by simp
qed

lemma updateNotation_stoneGrid: "updateNotation move = Inr b' \<Longrightarrow> stoneGrid b' = stoneGrid (currentBoard move)"
  by (simp add: updateNotation_def notateCells_stoneGrid)

lemma completeTurn_Inr:
  assumes "updateNotation move = Inr ub"
  shows "\<exists>s'. completeTurn s move = Inr s' \<and> board s' = ub
          \<and> currentPlayer s' = (if currentPlayer s = Black then White else Black)
          \<and> gamePhase s' = Placing
          \<and> gameStatus s' = (if checkWinCondition ub (currentPlayer s)
                              then winStatus (currentPlayer s) else Playing)
          \<and> moveHistory s' = moveHistory s @ [move]
          \<and> isHistoryMode s' = isHistoryMode s
          \<and> historyIndex s' = historyIndex s"
  using assms
  by (simp add: completeTurn_def updateAvailableMoves_def updateConvertibleStones_def
      addEvent_def Let_def)

lemma completeTurn_Inl: "updateNotation move = Inl e \<Longrightarrow> completeTurn s move = Inl e"
  by (simp add: completeTurn_def)

lemma shape_update: "map length (b[i := (b ! i)[j := v]]) = map length b"
  by (rule map_update_same) simp

lemma shape_stoneGrid: "map length (stoneGrid b) = map length b"
  by (simp add: stoneGrid_def comp_def)

lemma inBoard_shape:
  assumes "map length b = map length b'"
  shows "inBoard b pos = inBoard b' pos"
proof -
  have l: "length b = length b'" using assms by (metis length_map)
  have "\<And>i. i < length b \<Longrightarrow> length (b ! i) = length (b' ! i)"
    using assms l by (metis nth_map)
  then show ?thesis using l by (auto simp: inBoard_def)
qed

lemma wf_board_shape: "wf_board b = (map length b = replicate BOARD_SIZE BOARD_SIZE)"
  by (auto simp: wf_board_def list_all_length list_eq_iff_nth_eq)

lemma shape_setStoneType: "map length (setStoneType b pos st) = map length b"
  by (simp add: setStoneType_def shape_update)

lemma inBoard_setStoneType: "inBoard (setStoneType b pos st) q = inBoard b q"
  by (rule inBoard_shape) (rule shape_setStoneType)

lemma wf_board_setStoneType: "wf_board (setStoneType b pos st) = wf_board b"
  by (simp add: wf_board_shape shape_setStoneType)

lemma stoneType_setStoneType_same:
  "inBoard b pos \<Longrightarrow> stoneType (cellAt (setStoneType b pos st) pos) = st"
  by (simp add: inBoard_def setStoneType_def cellAt_def)

lemma nth_nth_update_other:
  assumes "i' \<noteq> i \<or> j' \<noteq> j"
  shows "b[i := (b ! i)[j := v]] ! i' ! j' = b ! i' ! j'"
proof (cases "i < length b")
  case True
  then show ?thesis using assms by (cases "i' = i") auto
next
  case False
  then have "length b \<le> i" by simp
  then have "b[i := (b ! i)[j := v]] = b" by (rule list_update_beyond)
  then show ?thesis by simp
qed

lemma cellAt_setStoneType_other:
  "nat (row q) \<noteq> nat (row pos) \<or> nat (col q) \<noteq> nat (col pos) \<Longrightarrow>
     cellAt (setStoneType b pos st) q = cellAt b q"
  unfolding setStoneType_def cellAt_def by (rule nth_nth_update_other)

lemma updateNotation_place:
  assumes "inBoard nb pos"
  shows "\<exists>ub. updateNotation \<lparr>moveNumber = n, player = pl, moveType = Place, movePosition = pos,
            previousBoard = pb, currentBoard = nb, resonanceInfo = None, lShapeInfo = None\<rparr> = Inr ub
          \<and> stoneGrid ub = stoneGrid nb"
proof -
  let ?m = "\<lparr>moveNumber = n, player = pl, moveType = Place, movePosition = pos,
            previousBoard = pb, currentBoard = nb, resonanceInfo = None, lShapeInfo = None\<rparr>"
  have a: "affectedPositions ?m = [pos]" by (simp add: affectedPositions_def)
  obtain ub where ub: "notateCells ?m [pos] nb = Inr ub"
    using notateCells_returns [of nb "[pos]" ?m] assms by auto
  then have "updateNotation ?m = Inr ub" by (simp add: updateNotation_def a)
  then show ?thesis using updateNotation_stoneGrid by fastforce
qed

lemma wf_createEmptyBoard: "wf_board createEmptyBoard"
  by (simp add: wf_board_def createEmptyBoard_def list_all_iff)

lemma wf_foldl_setStoneType:
  "wf_board b \<Longrightarrow> wf_board (foldl (\<lambda>b (r, c, st). setStoneType b \<lparr>row = r, col = c\<rparr> st) b xs)"
  by (induction xs arbitrary: b) (auto simp: wf_board_setStoneType)

lemma wf_boardWith: "wf_board (boardWith xs)"
  unfolding boardWith_def by (rule wf_foldl_setStoneType) (rule wf_createEmptyBoard)

lemma shape_eq_stoneGrid: "stoneGrid b = stoneGrid b' \<Longrightarrow> map length b = map length b'"
  by (metis shape_stoneGrid)

lemma placeStone_noop:
  "gameStatus s \<noteq> Playing \<or> isHistoryMode s \<Longrightarrow> placeStone s pos = Inr s"
  by (auto simp: placeStone_def)

lemma placeStone_throws:
  "gameStatus s = Playing \<Longrightarrow> \<not> isHistoryMode s \<Longrightarrow> \<not> inBoard (board s) pos \<Longrightarrow>
     placeStone s pos = Inl TypeError"
  by (simp add: placeStone_def)

lemma placeStone_places:
  assumes "gameStatus s = Playing" and "\<not> isHistoryMode s" and "inBoard (board s) pos"
  shows "\<exists>s' m. placeStone s pos = Inr s'
           \<and> stoneGrid (board s') = stoneGrid (setStoneType (board s) pos (conduitType (currentPlayer s)))
           \<and> moveHistory s' = moveHistory s @ [m]"
proof -
  let ?nb = "setStoneType (board s) pos (conduitType (currentPlayer s))"
  let ?s1 = "addEvent s \<lparr>eventType = StonePlaced, eventPlayer = currentPlayer s,
                         details = Some (noDetails\<lparr>detailPosition := Some pos\<rparr>)\<rparr>"
  let ?m = "\<lparr>moveNumber = currentMoveIndex ?s1 + 1, player = currentPlayer s,
             moveType = Place, movePosition = pos, previousBoard = board s,
             currentBoard = ?nb, resonanceInfo = None, lShapeInfo = None\<rparr>"
  have "inBoard ?nb pos" using assms(3) by (simp add: inBoard_setStoneType)
  then obtain ub where ub: "updateNotation ?m = Inr ub" and g: "stoneGrid ub = stoneGrid ?nb"
    using updateNotation_place by blast
  show ?thesis
  proof (cases "length (detectCoresWithNewStone ?nb (currentPlayer s) pos) > 0")
    case True
    then show ?thesis using assms ub g
      by (simp add: placeStone_def Let_def addEvent_def)
  next
    case False
    obtain s' where "completeTurn ?s1 ?m = Inr s'" "board s' = ub"
      "moveHistory s' = moveHistory ?s1 @ [?m]"
      using completeTurn_Inr [OF ub, of ?s1] by blast
    then show ?thesis using assms False g
      by (simp add: placeStone_def Let_def addEvent_def)
  qed
qed

lemma placeStone_places_cell:
  assumes "gameStatus s = Playing \<and> \<not> isHistoryMode s \<and> wf_board (board s) \<and> isValidPosition pos"
  shows "\<exists>s' m. placeStone s pos = Inr s' \<and>
                stoneType (cellAt (board s') pos) = conduitType (currentPlayer s) \<and>
                moveHistory s' = moveHistory s @ [m]"
proof -
  let ?nb = "setStoneType (board s) pos (conduitType (currentPlayer s))"
  have inb: "inBoard (board s) pos" using assms by (simp add: inBoard_wf)
  then obtain s' m where p: "placeStone s pos = Inr s'"
    and g: "stoneGrid (board s') = stoneGrid ?nb"
    and h: "moveHistory s' = moveHistory s @ [m]"
    using placeStone_places assms by blast
  have inb': "inBoard ?nb pos" using inb by (simp add: inBoard_setStoneType)
  then have "inBoard (board s') pos" using g inBoard_stoneGrid by blast
  then have "stoneType (cellAt (board s') pos) = stoneType (cellAt ?nb pos)"
    using inb' g by (simp add: stoneType_cellAt)
  then show ?thesis using p h inb by (simp add: stoneType_setStoneType_same)
qed

lemma resonatingState_facts:
  "gamePhase resonatingState = Resonating" "gameStatus resonatingState = Playing"
  "\<not> isHistoryMode resonatingState" "wf_board (board resonatingState)"
  "moveHistory resonatingState = []"
  by (simp_all add: resonatingState_def initialState_def coreBoard_def wf_boardWith)

lemma valid33: "isValidPosition \<lparr>row = 3, col = 3\<rparr>"
  by (simp add: isValidPosition_def BOARD_SIZE_def)

lemma placeStone_phase_irrelevant:
  "gameStatus s = Playing \<Longrightarrow> \<not> isHistoryMode s \<Longrightarrow>
     placeStone (s\<lparr>gamePhase := phase\<rparr>) pos = placeStone s pos"
  by (simp add: placeStone_def completeTurn_def addEvent_def updateAvailableMoves_def
      updateConvertibleStones_def Let_def split: sum.splits)

section \<open>Claims about the commands\<close>

text \<open>
  C3 (as amended). The spec says that in the phases resonating and selectingFocus the
  place-stone command is a silent no-op. \<open>placeStone\<close> does not read the phase. It returns
  the state unchanged exactly under its two guards: the game is not being played, or the
  store is in history mode. With status playing and outside history mode it places the
  stone at every position on the board, whatever the phase: the cell holds the current
  player's conductor afterwards, and a move is appended to the history; a position
  outside the board makes it throw; and the phase it finds has no influence on the state
  it leaves.
\<close>

theorem placeStone_ignores_phase:
  "(gameStatus s \<noteq> Playing \<or> isHistoryMode s \<longrightarrow> placeStone s pos = Inr s) \<and>
   (gameStatus s = Playing \<and> \<not> isHistoryMode s \<and> wf_board (board s) \<and> isValidPosition pos \<longrightarrow>
      (\<exists>s'. placeStone s pos = Inr s' \<and>
            stoneType (cellAt (board s') pos) = conduitType (currentPlayer s) \<and>
            length (moveHistory s') = length (moveHistory s) + 1)) \<and>
   (gameStatus s = Playing \<and> \<not> isHistoryMode s \<and> wf_board (board s) \<and> \<not> isValidPosition pos \<longrightarrow>
      placeStone s pos = Inl TypeError) \<and>
   (gameStatus s = Playing \<and> \<not> isHistoryMode s \<longrightarrow>
      placeStone (s\<lparr>gamePhase := phase\<rparr>) pos = placeStone s pos)"
proof (intro conjI impI)
  assume "gameStatus s \<noteq> Playing \<or> isHistoryMode s"
  then show "placeStone s pos = Inr s" by (rule placeStone_noop)
next
  assume a: "gameStatus s = Playing \<and> \<not> isHistoryMode s \<and> wf_board (board s) \<and> isValidPosition pos"
  then obtain s' m where "placeStone s pos = Inr s'"
    "stoneType (cellAt (board s') pos) = conduitType (currentPlayer s)"
    "moveHistory s' = moveHistory s @ [m]"
    using placeStone_places_cell by blast
  then show "\<exists>s'. placeStone s pos = Inr s' \<and>
            stoneType (cellAt (board s') pos) = conduitType (currentPlayer s) \<and>
            length (moveHistory s') = length (moveHistory s) + 1"
    by simp
next
  assume a: "gameStatus s = Playing \<and> \<not> isHistoryMode s \<and> wf_board (board s) \<and> \<not> isValidPosition pos"
  then have "\<not> inBoard (board s) pos" by (simp add: inBoard_wf)
  then show "placeStone s pos = Inl TypeError" using a by (simp add: placeStone_throws)
next
  assume "gameStatus s = Playing \<and> \<not> isHistoryMode s"
  then show "placeStone (s\<lparr>gamePhase := phase\<rparr>) pos = placeStone s pos"
    by (simp add: placeStone_phase_irrelevant)
qed

theorem placeStone_ignores_phase_witness:
  "(gameStatus (resonatingState\<lparr>gameStatus := BlackWin\<rparr>) \<noteq> Playing \<and>
    placeStone (resonatingState\<lparr>gameStatus := BlackWin\<rparr>) \<lparr>row = 3, col = 3\<rparr>
      = Inr (resonatingState\<lparr>gameStatus := BlackWin\<rparr>)) \<and>
   (gameStatus resonatingState = Playing \<and> \<not> isHistoryMode resonatingState \<and>
    wf_board (board resonatingState) \<and> isValidPosition \<lparr>row = 3, col = 3\<rparr> \<and>
    gamePhase resonatingState = Resonating \<and>
    currentPlayer resonatingState = Black \<and>
    (\<exists>s'. placeStone resonatingState \<lparr>row = 3, col = 3\<rparr> = Inr s' \<and>
          stoneType (cellAt (board s') \<lparr>row = 3, col = 3\<rparr>) = BlackConduit \<and>
          length (moveHistory s') = length (moveHistory resonatingState) + 1)) \<and>
   (\<not> isValidPosition \<lparr>row = 17, col = 3\<rparr> \<and>
    placeStone resonatingState \<lparr>row = 17, col = 3\<rparr> = Inl TypeError) \<and>
   placeStone (resonatingState\<lparr>gamePhase := SelectingFocus\<rparr>) \<lparr>row = 3, col = 3\<rparr>
     = placeStone resonatingState \<lparr>row = 3, col = 3\<rparr>"
proof -
  have out: "\<not> isValidPosition \<lparr>row = 17, col = 3\<rparr>"
    by (simp add: isValidPosition_def BOARD_SIZE_def)
  have "gameStatus (resonatingState\<lparr>gameStatus := BlackWin\<rparr>) \<noteq> Playing" by simp
  then have first: "placeStone (resonatingState\<lparr>gameStatus := BlackWin\<rparr>) \<lparr>row = 3, col = 3\<rparr>
      = Inr (resonatingState\<lparr>gameStatus := BlackWin\<rparr>)"
    using placeStone_ignores_phase [of "resonatingState\<lparr>gameStatus := BlackWin\<rparr>" "\<lparr>row = 3, col = 3\<rparr>"]
    by blast
  have black: "currentPlayer resonatingState = Black"
    by (simp add: resonatingState_def initialState_def)
  have second: "\<exists>s'. placeStone resonatingState \<lparr>row = 3, col = 3\<rparr> = Inr s' \<and>
          stoneType (cellAt (board s') \<lparr>row = 3, col = 3\<rparr>) = BlackConduit \<and>
          length (moveHistory s') = length (moveHistory resonatingState) + 1"
    using placeStone_ignores_phase [of resonatingState "\<lparr>row = 3, col = 3\<rparr>"]
      resonatingState_facts valid33 black by auto
  have third: "placeStone resonatingState \<lparr>row = 17, col = 3\<rparr> = Inl TypeError"
    using placeStone_ignores_phase [of resonatingState "\<lparr>row = 17, col = 3\<rparr>"]
      resonatingState_facts out by blast
  have fourth: "placeStone (resonatingState\<lparr>gamePhase := SelectingFocus\<rparr>) \<lparr>row = 3, col = 3\<rparr>
     = placeStone resonatingState \<lparr>row = 3, col = 3\<rparr>"
    using placeStone_ignores_phase [of resonatingState "\<lparr>row = 3, col = 3\<rparr>" SelectingFocus]
      resonatingState_facts by blast
  show ?thesis using first second third fourth black resonatingState_facts valid33 out by simp
qed

text \<open>
  The claim as the spec states it fails: in the resonating position, placing on the empty
  cell \<open>(3, 3)\<close> does not return the state it was given.
\<close>

theorem placeStone_resonating_counterexample:
  "gamePhase resonatingState = Resonating \<and>
   placeStone resonatingState \<lparr>row = 3, col = 3\<rparr> \<noteq> Inr resonatingState"
proof -
  obtain s' where "placeStone resonatingState \<lparr>row = 3, col = 3\<rparr> = Inr s'"
     "length (moveHistory s') = length (moveHistory resonatingState) + 1"
    using placeStone_places [of resonatingState "\<lparr>row = 3, col = 3\<rparr>"] resonatingState_facts valid33
    by (auto simp: inBoard_wf)
  then show ?thesis using resonatingState_facts by auto
qed

lemma cellAt_boardWith_33:
  "stoneType (cellAt (boardWith [(3, 3, WhiteKeystone)]) \<lparr>row = 3, col = 3\<rparr>) = WhiteKeystone"
  by (simp add: boardWith_def stoneType_setStoneType_same inBoard_wf wf_createEmptyBoard valid33)

text \<open>
  C10. \<open>placeStone\<close> makes no emptiness check: with status playing and outside history mode
  it returns, and the cell at every position on the board then holds the current player's
  conductor, whatever the cell held before. The board is any board of 17 rows of 17
  cells, as the board of every reachable state is (lemma \<open>reachable_wf_board\<close>).
\<close>

theorem placeStone_overwrites:
  assumes "gameStatus s = Playing" and "\<not> isHistoryMode s"
    and "wf_board (board s)" and "isValidPosition pos"
  shows "\<exists>s'. placeStone s pos = Inr s' \<and>
              stoneType (cellAt (board s') pos) = conduitType (currentPlayer s)"
proof -
  let ?nb = "setStoneType (board s) pos (conduitType (currentPlayer s))"
  have inb: "inBoard (board s) pos" using assms by (simp add: inBoard_wf)
  then obtain s' where p: "placeStone s pos = Inr s'" and g: "stoneGrid (board s') = stoneGrid ?nb"
    using placeStone_places assms by blast
  have inb': "inBoard ?nb pos" using inb by (simp add: inBoard_setStoneType)
  then have "inBoard (board s') pos" using g inBoard_stoneGrid by blast
  then have "stoneType (cellAt (board s') pos) = stoneType (cellAt ?nb pos)"
    using inb' g by (simp add: stoneType_cellAt)
  then show ?thesis using p inb by (simp add: stoneType_setStoneType_same)
qed

theorem placeStone_overwrites_witness:
  "gameStatus occupiedState = Playing \<and> \<not> isHistoryMode occupiedState \<and>
   wf_board (board occupiedState) \<and> isValidPosition \<lparr>row = 3, col = 3\<rparr> \<and>
   stoneType (cellAt (board occupiedState) \<lparr>row = 3, col = 3\<rparr>) = WhiteKeystone \<and>
   currentPlayer occupiedState = Black \<and>
   (\<exists>s'. placeStone occupiedState \<lparr>row = 3, col = 3\<rparr> = Inr s' \<and>
         stoneType (cellAt (board s') \<lparr>row = 3, col = 3\<rparr>) = BlackConduit)"
proof -
  have facts: "gameStatus occupiedState = Playing" "\<not> isHistoryMode occupiedState"
    "wf_board (board occupiedState)" "currentPlayer occupiedState = Black"
    "stoneType (cellAt (board occupiedState) \<lparr>row = 3, col = 3\<rparr>) = WhiteKeystone"
    by (simp_all add: occupiedState_def initialState_def wf_boardWith cellAt_boardWith_33)
  show ?thesis
    using placeStone_overwrites [OF facts(1) facts(2) facts(3) valid33] facts valid33 by simp
qed

section \<open>The history cursor\<close>

lemma completeTurn_history:
  assumes "completeTurn s move = Inr s'"
  shows "isHistoryMode s' = isHistoryMode s \<and> historyIndex s' = historyIndex s \<and>
         moveHistory s' = moveHistory s @ [move]"
proof (cases "updateNotation move")
  case (Inl e)
  then show ?thesis using assms by (simp add: completeTurn_Inl)
next
  case (Inr ub)
  then show ?thesis using completeTurn_Inr [OF Inr, of s] assms by auto
qed

lemma completeTurn_invariant:
  "historyInvariant s \<Longrightarrow> completeTurn s move = Inr s' \<Longrightarrow> historyInvariant s'"
  using completeTurn_history [of s move s'] by (auto simp: historyInvariant_def)

lemma historyInvariant_addEvent [simp]: "historyInvariant (addEvent s event) = historyInvariant s"
  by (simp add: historyInvariant_def addEvent_def)

lemma placeStone_invariant:
  assumes "historyInvariant s" and "placeStone s pos = Inr s'"
  shows "historyInvariant s'"
proof (cases "gameStatus s \<noteq> Playing \<or> isHistoryMode s")
  case True
  then show ?thesis using assms by (simp add: placeStone_noop)
next
  case False
  then have "\<not> isHistoryMode s'"
    using assms(2)
    by (auto simp: placeStone_def Let_def addEvent_def split: if_splits sum.splits
        dest!: completeTurn_history)
  then show ?thesis by (simp add: historyInvariant_def)
qed

lemma convertLShape_invariant:
  "historyInvariant s \<Longrightarrow> convertLShape s shape i = Inr s' \<Longrightarrow> historyInvariant s'"
  by (auto simp: convertLShape_def Let_def split: if_splits dest: completeTurn_invariant)

lemma selectFocusPosition_invariant:
  assumes "historyInvariant s" and "selectFocusPosition s pos = Inr s'"
  shows "historyInvariant s'"
  using assms
  by (auto simp: selectFocusPosition_def Let_def
      split: option.splits if_splits sum.splits prod.splits
      dest!: completeTurn_invariant [rotated])

lemma activateResonanceAction_invariant:
  "historyInvariant s \<Longrightarrow> activateResonanceAction s cr pos = Inr s' \<Longrightarrow> historyInvariant s'"
  by (auto simp: activateResonanceAction_def split: sum.splits prod.splits
      dest: completeTurn_invariant)

lemma undo_invariant: "historyInvariant s \<Longrightarrow> undo s = Inr s' \<Longrightarrow> historyInvariant s'"
  by (auto simp: undo_def restoreView_def historyInvariant_def Let_def split: if_splits)

lemma redo_invariant: "historyInvariant s \<Longrightarrow> redo s = Inr s' \<Longrightarrow> historyInvariant s'"
  by (auto simp: redo_def restoreView_def historyInvariant_def Let_def split: if_splits)

lemma confirmUndo_invariant:
  "historyInvariant s \<Longrightarrow> confirmUndo s = Inr s' \<Longrightarrow> historyInvariant s'"
  by (auto simp: confirmUndo_def historyInvariant_def Let_def updateAvailableMoves_def
      updateConvertibleStones_def addEvent_def split: if_splits)

lemma historyInvariant_simple [simp]:
  "historyInvariant (selectCore s cr) = historyInvariant s"
  "historyInvariant (setHoveredPosition s hovered) = historyInvariant s"
  "historyInvariant (toggleNotationMode s) = historyInvariant s"
  "historyInvariant (clearEventLog s) = historyInvariant s"
  "historyInvariant (updateAvailableMoves s) = historyInvariant s"
  "historyInvariant (updateConvertibleStones s) = historyInvariant s"
  "historyInvariant (resetGame s)"
  by (simp_all add: historyInvariant_def selectCore_def setHoveredPosition_def
      toggleNotationMode_def clearEventLog_def updateAvailableMoves_def
      updateConvertibleStones_def resetGame_def initialState_def Let_def)

lemma reachable_historyInvariant: "reachable s \<Longrightarrow> historyInvariant s"
proof (induction rule: reachable.induct)
  case r_initial
  then show ?case by (simp add: historyInvariant_def initialState_def)
next
  case (r_placeStone s pos s')
  then show ?case by (blast intro: placeStone_invariant)
next
  case (r_convertLShape s shape stoneIndex s')
  then show ?case by (blast intro: convertLShape_invariant)
next
  case (r_selectFocusPosition s pos s')
  then show ?case by (blast intro: selectFocusPosition_invariant)
next
  case (r_activateResonance s cr pos s')
  then show ?case by (blast intro: activateResonanceAction_invariant)
next
  case (r_undo s s')
  then show ?case by (blast intro: undo_invariant)
next
  case (r_redo s s')
  then show ?case by (blast intro: redo_invariant)
next
  case (r_confirmUndo s s')
  then show ?case by (blast intro: confirmUndo_invariant)
next
  case (r_resetGameDeferred s)
  then show ?case by (simp add: resetGameDeferred_def)
qed simp_all

lemma undoneOnce_facts:
  "undo playedState = Inr undoneOnce" "isHistoryMode undoneOnce" "historyIndex undoneOnce = 2"
  "length (moveHistory undoneOnce) = 3"
  by (simp_all add: undoneOnce_def undo_def playedState_def initialState_def restoreView_def Let_def)

lemma undoneTwice_facts:
  "undo undoneOnce = Inr undoneTwice" "isHistoryMode undoneTwice" "historyIndex undoneTwice = 1"
  "length (moveHistory undoneTwice) = 3"
  by (simp_all add: undoneTwice_def undoneOnce_def undo_def playedState_def initialState_def
      restoreView_def Let_def)


text \<open>
  C9. \<open>undo\<close> on an empty move history, and \<open>redo\<close> outside history mode or with the cursor
  on the last move, return the state they were given: no error, no change. The state is
  any state with the cursor property above, which every reachable state has.
\<close>

theorem undo_redo_noop:
  assumes "historyInvariant s"
  shows "(moveHistory s = [] \<longrightarrow> undo s = Inr s) \<and>
         (\<not> isHistoryMode s \<or> historyIndex s + 1 = length (moveHistory s) \<longrightarrow> redo s = Inr s)"
  using assms by (auto simp: historyInvariant_def undo_def redo_def)


theorem undo_redo_noop_witness:
  "historyInvariant initialState \<and> moveHistory initialState = [] \<and>
   \<not> isHistoryMode initialState \<and>
   undo initialState = Inr initialState \<and> redo initialState = Inr initialState \<and>
   historyInvariant undoneOnce \<and> isHistoryMode undoneOnce \<and>
   historyIndex undoneOnce + 1 = length (moveHistory undoneOnce) \<and>
   redo undoneOnce = Inr undoneOnce"
proof -
  have i: "historyInvariant initialState" "moveHistory initialState = []"
    "\<not> isHistoryMode initialState"
    by (simp_all add: historyInvariant_def initialState_def)
  have u: "historyInvariant undoneOnce"
    "historyIndex undoneOnce + 1 = length (moveHistory undoneOnce)"
    using undoneOnce_facts by (simp_all add: historyInvariant_def)
  show ?thesis
    using undo_redo_noop [OF i(1)] undo_redo_noop [OF u(1)] i u undoneOnce_facts by simp
qed

text \<open>
  C8. In history mode with the cursor on move \<open>K\<close>, \<open>confirmUndo\<close> keeps exactly the first
  \<open>K + 1\<close> moves of the history and leaves history mode, and \<open>redo\<close> on the state it leaves
  returns that state unchanged.
\<close>

theorem confirmUndo_truncates:
  assumes "isHistoryMode s" and "historyInvariant s"
  shows "\<exists>s'. confirmUndo s = Inr s' \<and>
              moveHistory s' = take (historyIndex s + 1) (moveHistory s) \<and>
              length (moveHistory s') = historyIndex s + 1 \<and>
              \<not> isHistoryMode s' \<and>
              redo s' = Inr s'"
  using assms
  by (simp add: historyInvariant_def confirmUndo_def Let_def updateAvailableMoves_def updateConvertibleStones_def
      addEvent_def redo_def)



theorem confirmUndo_truncates_witness:
  "isHistoryMode undoneTwice \<and> historyInvariant undoneTwice \<and>
   historyIndex undoneTwice = 1 \<and> length (moveHistory undoneTwice) = 3 \<and>
   (\<exists>s'. confirmUndo undoneTwice = Inr s' \<and>
         moveHistory s' = take 2 (moveHistory undoneTwice) \<and>
         length (moveHistory s') = 2 \<and> \<not> isHistoryMode s' \<and> redo s' = Inr s')"
proof -
  have h: "isHistoryMode undoneTwice" "historyInvariant undoneTwice"
    using undoneTwice_facts by (simp_all add: historyInvariant_def)
  have k: "historyIndex undoneTwice + 1 = 2" using undoneTwice_facts by simp
  show ?thesis using confirmUndo_truncates [OF h, unfolded k] h undoneTwice_facts by simp
qed

section \<open>Finishing a turn\<close>

lemma wf_board_nth:
  "wf_board b \<Longrightarrow> r < BOARD_SIZE \<Longrightarrow> c < BOARD_SIZE \<Longrightarrow>
     stoneType (b ! r ! c) = stoneGrid b ! r ! c"
  by (simp add: wf_board_def stoneGrid_def list_all_length)

lemma wf_stoneGrid_nth:
  assumes "wf_board b" and "stoneGrid b = stoneGrid b'" and "r < BOARD_SIZE" and "c < BOARD_SIZE"
  shows "stoneType (b ! r ! c) = stoneType (b' ! r ! c)"
proof -
  have "wf_board b'" using assms(1,2) wf_board_stoneGrid by blast
  then show ?thesis using assms by (simp add: wf_board_nth)
qed

lemma getKeystoneStones_stoneGrid:
  assumes "wf_board b" and "stoneGrid b = stoneGrid b'"
  shows "getKeystoneStones b pl = getKeystoneStones b' pl"
  unfolding getKeystoneStones_def
  by (intro arg_cong [where f = concat] map_cong refl)
     (simp add: wf_stoneGrid_nth [OF assms])

lemma checkWinCondition_stoneGrid:
  "wf_board b \<Longrightarrow> stoneGrid b = stoneGrid b' \<Longrightarrow> checkWinCondition b pl = checkWinCondition b' pl"
  by (simp add: checkWinCondition_def getKeystoneStones_stoneGrid [of b b'])

lemma winningMove_positions:
  "list_all (inBoard (currentBoard winningMove)) (affectedPositions winningMove)"
  by (simp add: winningMove_def affectedPositions_def winningShape_def inBoard_setStoneType
      winningBoard_def inBoard_wf wf_boardWith isValidPosition_def BOARD_SIZE_def)

lemma winningMove_wins:
  "checkWinCondition (setStoneType winningBoard \<lparr>row = 0, col = 4\<rparr> BlackKeystone) Black"
  by code_simp

lemma updateNotation_returns:
  assumes "list_all (inBoard (currentBoard move)) (affectedPositions move)"
  shows "\<exists>ub. updateNotation move = Inr ub \<and> stoneGrid ub = stoneGrid (currentBoard move)"
  using notateCells_returns [OF assms] updateNotation_stoneGrid
  by (fastforce simp: updateNotation_def)

lemma winningTurn:
  "\<exists>s'. completeTurn winningState winningMove = Inr s' \<and> currentPlayer s' = White \<and>
        gamePhase s' = Placing \<and> gameStatus s' = BlackWin \<and> checkWinCondition (board s') Black"
proof -
  obtain ub where ub: "updateNotation winningMove = Inr ub"
    and g: "stoneGrid ub = stoneGrid (currentBoard winningMove)"
    using updateNotation_returns [OF winningMove_positions] by blast
  have "wf_board (currentBoard winningMove)"
    by (simp add: winningMove_def wf_board_setStoneType winningBoard_def wf_boardWith)
  then have "checkWinCondition ub Black = checkWinCondition (currentBoard winningMove) Black"
    using g checkWinCondition_stoneGrid by metis
  then have w: "checkWinCondition ub Black" using winningMove_wins by (simp add: winningMove_def)
  have "currentPlayer winningState = Black" by (simp add: winningState_def initialState_def)
  then show ?thesis using completeTurn_Inr [OF ub, of winningState] w by auto
qed

text \<open>
  C2 (as amended). \<open>completeTurn\<close> swaps the active player and resets the phase to placing
  in every finalization, whether the win check succeeds or not; the game status becomes the
  acting player's win when the check succeeds on the updated board, and playing otherwise.
  It returns whenever the positions the move touches lie on the move's board.
\<close>

theorem completeTurn_swaps_always:
  assumes "list_all (inBoard (currentBoard move)) (affectedPositions move)"
  shows "\<exists>s'. completeTurn s move = Inr s' \<and>
              currentPlayer s' = otherPlayer (currentPlayer s) \<and>
              gamePhase s' = Placing \<and>
              gameStatus s' = (if checkWinCondition (board s') (currentPlayer s)
                               then winStatus (currentPlayer s) else Playing)"
proof -
  obtain ub where "updateNotation move = Inr ub" using updateNotation_returns [OF assms] by blast
  then show ?thesis using completeTurn_Inr [of move ub s] by (auto simp: otherPlayer_def)
qed

theorem completeTurn_swaps_always_witness:
  "list_all (inBoard (currentBoard winningMove)) (affectedPositions winningMove) \<and>
   (\<exists>s'. completeTurn winningState winningMove = Inr s' \<and>
         currentPlayer s' = otherPlayer (currentPlayer winningState) \<and>
         gamePhase s' = Placing \<and>
         gameStatus s' = (if checkWinCondition (board s') (currentPlayer winningState)
                          then winStatus (currentPlayer winningState) else Playing))"
  using completeTurn_swaps_always [OF winningMove_positions, of winningState] winningMove_positions
  by simp


text \<open>
  The claim as the spec states it fails: black converts the stone on \<open>(0, 4)\<close> and wins,
  and the turn still passes to white in phase placing.
\<close>

theorem completeTurn_win_counterexample:
  "convertLShape winningState winningShape 0 = completeTurn winningState winningMove \<and>
   currentPlayer winningState = Black \<and>
   \<not> isl (completeTurn winningState winningMove) \<and>
   checkWinCondition (board (projr (completeTurn winningState winningMove))) Black \<and>
   gameStatus (projr (completeTurn winningState winningMove)) = BlackWin \<and>
   currentPlayer (projr (completeTurn winningState winningMove)) = White \<and>
   gamePhase (projr (completeTurn winningState winningMove)) = Placing"
proof -
  have c: "convertLShape winningState winningShape 0 = completeTurn winningState winningMove"
    by (simp add: convertLShape_def Let_def winningState_def initialState_def winningShape_def
        winningMove_def winningBoard_def inBoard_wf wf_boardWith isValidPosition_def BOARD_SIZE_def)
  have "currentPlayer winningState = Black" by (simp add: winningState_def initialState_def)
  then show ?thesis using c winningTurn by auto
qed

section \<open>Pattern detection claims\<close>

lemma set_scan:
  "set [f r c. r \<leftarrow> rs, c \<leftarrow> cs, P r c] = {f r c | r c. r \<in> set rs \<and> c \<in> set cs \<and> P r c}"
  by auto

lemma coreAt_in_detectCores:
  assumes "0 \<le> startRow" "startRow < int BOARD_SIZE - 1" "0 \<le> startCol" "startCol < int BOARD_SIZE - 1"
    and "isValidCore (fourCells b (nat startRow) (nat startCol)) pl"
  shows "coreAt b (nat startRow) (nat startCol) \<in> set (detectCores b pl)"
proof -
  have "nat startRow \<in> set [0..<BOARD_SIZE - 1]" "nat startCol \<in> set [0..<BOARD_SIZE - 1]"
    using assms(1-4) by auto
  then show ?thesis using assms(5) unfolding detectCores_def set_scan by blast
qed

lemma positions_coreAt:
  "0 \<le> startRow \<Longrightarrow> 0 \<le> startCol \<Longrightarrow>
   positions (coreAt b (nat startRow) (nat startCol)) =
     [\<lparr>row = startRow, col = startCol\<rparr>, \<lparr>row = startRow, col = startCol + 1\<rparr>,
      \<lparr>row = startRow + 1, col = startCol\<rparr>, \<lparr>row = startRow + 1, col = startCol + 1\<rparr>]"
  by (simp add: coreAt_def)

lemma detectCoresWithNewStone_candidates:
  "detectCoresWithNewStone b pl pos =
     candidateCores b pl (row pos) (col pos) @ candidateCores b pl (row pos) (col pos - 1) @
     candidateCores b pl (row pos - 1) (col pos) @ candidateCores b pl (row pos - 1) (col pos - 1)"
  by (simp add: detectCoresWithNewStone_def candidateCores_def Let_def)

lemma candidateCores_sound:
  assumes "cr \<in> set (candidateCores b pl startRow startCol)"
  shows "cr \<in> set (detectCores b pl) \<and>
         positions cr =
           [\<lparr>row = startRow, col = startCol\<rparr>, \<lparr>row = startRow, col = startCol + 1\<rparr>,
            \<lparr>row = startRow + 1, col = startCol\<rparr>, \<lparr>row = startRow + 1, col = startCol + 1\<rparr>]"
proof -
  have rng: "0 \<le> startRow" "startRow < int BOARD_SIZE - 1" "0 \<le> startCol" "startCol < int BOARD_SIZE - 1"
    and valid: "isValidCore (fourCells b (nat startRow) (nat startCol)) pl"
    and cr: "cr = coreAt b (nat startRow) (nat startCol)"
    using assms by (simp_all add: candidateCores_def split: if_splits)
  show ?thesis
    unfolding cr using coreAt_in_detectCores [OF rng valid] positions_coreAt [OF rng(1) rng(3)]
    by simp
qed

text \<open>
  C5. Every core \<open>detectCoresWithNewStone\<close> returns for a position is one of the cores
  \<open>detectCores\<close> returns for the same board and owner, and has the position among its four
  positions.
\<close>

theorem detectCoresWithNewStone_subset:
  "set (detectCoresWithNewStone b pl pos) \<subseteq>
     {cr. cr \<in> set (detectCores b pl) \<and> pos \<in> set (positions cr)}"
proof
  fix cr
  assume "cr \<in> set (detectCoresWithNewStone b pl pos)"
  then consider
      "cr \<in> set (candidateCores b pl (row pos) (col pos))"
    | "cr \<in> set (candidateCores b pl (row pos) (col pos - 1))"
    | "cr \<in> set (candidateCores b pl (row pos - 1) (col pos))"
    | "cr \<in> set (candidateCores b pl (row pos - 1) (col pos - 1))"
    unfolding detectCoresWithNewStone_candidates by auto
  then have "cr \<in> set (detectCores b pl) \<and> pos \<in> set (positions cr)"
  proof cases
    case 1
    show ?thesis using candidateCores_sound [OF 1] by simp
  next
    case 2
    show ?thesis using candidateCores_sound [OF 2] by simp
  next
    case 3
    show ?thesis using candidateCores_sound [OF 3] by simp
  next
    case 4
    show ?thesis using candidateCores_sound [OF 4] by simp
  qed
  then show "cr \<in> {cr. cr \<in> set (detectCores b pl) \<and> pos \<in> set (positions cr)}" by simp
qed

theorem detectCoresWithNewStone_subset_witness:
  "coreAt coreBoard 0 0 \<in> set (detectCoresWithNewStone coreBoard Black \<lparr>row = 1, col = 1\<rparr>) \<and>
   coreAt coreBoard 0 0 \<in> set (detectCores coreBoard Black) \<and>
   \<lparr>row = 1, col = 1\<rparr> \<in> set (positions (coreAt coreBoard 0 0))"
proof -
  have found: "coreAt coreBoard 0 0 \<in> set (detectCoresWithNewStone coreBoard Black \<lparr>row = 1, col = 1\<rparr>)"
    by code_simp
  then show ?thesis
    using detectCoresWithNewStone_subset [of coreBoard Black "\<lparr>row = 1, col = 1\<rparr>"] by blast
qed

lemma isLShape_adjacentPairs: "isLShape [a, b, c] = (adjacentPairs a b c = 2)"
  by (simp add: adjacentPairs_def)

lemma areAdjacent_manhattan:
  "areAdjacent p q = (\<bar>row p - row q\<bar> + \<bar>col p - col q\<bar> = 1)"
  by (auto simp: areAdjacent_def Let_def)

lemma set_triples:
  "set [f i j k. i \<leftarrow> [0..<n - 2], j \<leftarrow> [i + 1..<n - 1], k \<leftarrow> [j + 1..<n], P i j k] =
     {f i j k | i j k. i < j \<and> j < k \<and> k < n \<and> P i j k}"
proof -
  have "\<And>i j k. (i < n - 2 \<and> i + 1 \<le> j \<and> j < n - 1 \<and> j + 1 \<le> k \<and> k < n) = (i < j \<and> j < k \<and> k < n)"
    by auto
  then show ?thesis by (auto simp: Bex_def) blast+
qed

lemma row_filter: "concat (map (\<lambda>c. if P c then [f c] else []) cs) = map f (filter P cs)"
  by (induction cs) simp_all

lemma distinct_scan:
  assumes "distinct rs" and "distinct cs"
    and inj: "\<And>r c r' c'. f r c = f r' c' \<Longrightarrow> r = r' \<and> c = c'"
  shows "distinct [f r c. r \<leftarrow> rs, c \<leftarrow> cs, P r c]"
  using assms(1)
proof (induction rs)
  case Nil
  then show ?case by simp
next
  case (Cons r rs)
  have "inj_on (f r) (set (filter (P r) cs))" using inj by (auto simp: inj_on_def)
  then have d: "distinct (map (f r) (filter (P r) cs))"
    using assms(2) by (simp add: distinct_map)
  have "r \<notin> set rs" using Cons.prems by simp
  then have disj: "set (map (f r) (filter (P r) cs)) \<inter>
      set [f r' c. r' \<leftarrow> rs, c \<leftarrow> cs, P r' c] = {}"
    unfolding set_scan using inj by auto
  have "distinct [f r' c. r' \<leftarrow> rs, c \<leftarrow> cs, P r' c]" using Cons by simp
  then show ?case using d disj by (simp add: row_filter)
qed

lemma set_getConduitStones:
  "set (getConduitStones b pl) =
     {pos. isValidPosition pos \<and> stoneType (cellAt b pos) = conduitType pl}"
proof (intro set_eqI iffI)
  fix pos
  assume "pos \<in> set (getConduitStones b pl)"
  then obtain r c where "pos = \<lparr>row = int r, col = int c\<rparr>" "r < BOARD_SIZE" "c < BOARD_SIZE"
    "stoneType (b ! r ! c) = conduitType pl"
    unfolding getConduitStones_def set_scan by auto
  then show "pos \<in> {pos. isValidPosition pos \<and> stoneType (cellAt b pos) = conduitType pl}"
    by (simp add: isValidPosition_def cellAt_def)
next
  fix pos
  assume "pos \<in> {pos. isValidPosition pos \<and> stoneType (cellAt b pos) = conduitType pl}"
  then have v: "0 \<le> row pos" "row pos < int BOARD_SIZE" "0 \<le> col pos" "col pos < int BOARD_SIZE"
    and st: "stoneType (b ! nat (row pos) ! nat (col pos)) = conduitType pl"
    by (simp_all add: isValidPosition_def cellAt_def)
  have "pos = \<lparr>row = int (nat (row pos)), col = int (nat (col pos))\<rparr>" using v by simp
  moreover have "nat (row pos) \<in> set [0..<BOARD_SIZE]" "nat (col pos) \<in> set [0..<BOARD_SIZE]"
    using v by auto
  ultimately show "pos \<in> set (getConduitStones b pl)"
    unfolding getConduitStones_def set_scan using st by blast
qed

lemma distinct_getConduitStones: "distinct (getConduitStones b pl)"
  unfolding getConduitStones_def by (rule distinct_scan) auto


lemma stones_detectLShapes:
  "map stones (detectLShapes b pl) =
          [[getConduitStones b pl ! i, getConduitStones b pl ! j, getConduitStones b pl ! k].
             i \<leftarrow> [0..<length (getConduitStones b pl) - 2],
             j \<leftarrow> [i + 1..<length (getConduitStones b pl) - 1],
             k \<leftarrow> [j + 1..<length (getConduitStones b pl)],
             adjacentPairs (getConduitStones b pl ! i) (getConduitStones b pl ! j)
               (getConduitStones b pl ! k) = 2]"
  unfolding detectLShapes_def Let_def isLShape_adjacentPairs
  by (simp add: map_concat comp_def if_distrib [of "map stones"] cong: if_cong)

text \<open>
  C6. \<open>detectLShapes\<close> returns exactly the triples of the owner's conductor positions, taken
  in scan order, of which exactly two of the three pairwise adjacency checks are true. The
  conductor positions are the positions on the board whose stone is the owner's conductor
  (so none of the owner's keystones), each listed once; two positions are adjacent exactly
  when their Manhattan distance is 1.
\<close>

theorem detectLShapes_exact:
  "set (map stones (detectLShapes b pl)) =
     {[getConduitStones b pl ! i, getConduitStones b pl ! j, getConduitStones b pl ! k] | i j k.
        i < j \<and> j < k \<and> k < length (getConduitStones b pl) \<and>
        adjacentPairs (getConduitStones b pl ! i) (getConduitStones b pl ! j)
                      (getConduitStones b pl ! k) = 2} \<and>
   set (getConduitStones b pl) =
     {pos. isValidPosition pos \<and> stoneType (cellAt b pos) = conduitType pl} \<and>
   distinct (getConduitStones b pl) \<and>
   (\<forall>p q. areAdjacent p q = (\<bar>row p - row q\<bar> + \<bar>col p - col q\<bar> = 1))"
  unfolding stones_detectLShapes set_triples
  using set_getConduitStones distinct_getConduitStones areAdjacent_manhattan by blast

theorem detectLShapes_exact_witness:
  "getConduitStones winningBoard Black =
     [\<lparr>row = 0, col = 4\<rparr>, \<lparr>row = 1, col = 4\<rparr>, \<lparr>row = 1, col = 5\<rparr>] \<and>
   adjacentPairs \<lparr>row = 0, col = 4\<rparr> \<lparr>row = 1, col = 4\<rparr> \<lparr>row = 1, col = 5\<rparr> = 2 \<and>
   [\<lparr>row = 0, col = 4\<rparr>, \<lparr>row = 1, col = 4\<rparr>, \<lparr>row = 1, col = 5\<rparr>]
     \<in> set (map stones (detectLShapes winningBoard Black))"
proof -
  let ?cs = "getConduitStones winningBoard Black"
  have cs: "?cs = [\<lparr>row = 0, col = 4\<rparr>, \<lparr>row = 1, col = 4\<rparr>, \<lparr>row = 1, col = 5\<rparr>]"
    by code_simp
  have ap: "adjacentPairs \<lparr>row = 0, col = 4\<rparr> \<lparr>row = 1, col = 4\<rparr> \<lparr>row = 1, col = 5\<rparr> = 2"
    by (simp add: adjacentPairs_def areAdjacent_def)
  have "[?cs ! 0, ?cs ! 1, ?cs ! 2] \<in>
          {[?cs ! i, ?cs ! j, ?cs ! k] | i j k.
             i < j \<and> j < k \<and> k < length ?cs \<and> adjacentPairs (?cs ! i) (?cs ! j) (?cs ! k) = 2}"
    using ap by (intro CollectI exI [of _ 0] exI [of _ 1] exI [of _ 2]) (simp add: cs)
  then have "[?cs ! 0, ?cs ! 1, ?cs ! 2] \<in> set (map stones (detectLShapes winningBoard Black))"
    using detectLShapes_exact [of winningBoard Black] by simp
  then show ?thesis using cs ap by simp
qed

section \<open>Win check claims\<close>

lemma those_map_Some: "those (map (\<lambda>i. Some (g i)) xs) = Some (map g xs)"
  by (induction xs) simp_all

lemma getCombinations_step:
  assumes "r \<noteq> 1" "r \<noteq> length array" "r \<noteq> 0"
    and "\<And>i. i < length array + 1 - r \<Longrightarrow> getCombinations (drop (i + 1) array) (r - 1) = Some (rec i)"
  shows "getCombinations array r =
           Some (concat (map (\<lambda>i. map (\<lambda>combination. (array ! i) # combination) (rec i))
                             [0..<length array + 1 - r]))"
proof -
  have "map (\<lambda>i. map_option (map (\<lambda>combination. (array ! i) # combination))
                    (getCombinations (drop (i + 1) array) (r - 1))) [0..<length array + 1 - r]
        = map (\<lambda>i. Some (map (\<lambda>combination. (array ! i) # combination) (rec i)))
              [0..<length array + 1 - r]"
    using assms(4) by (intro map_cong refl) simp
  then have "map_option concat
           (those (map (\<lambda>i. map_option (map (\<lambda>combination. (array ! i) # combination))
                    (getCombinations (drop (i + 1) array) (r - 1))) [0..<length array + 1 - r]))
        = Some (concat (map (\<lambda>i. map (\<lambda>combination. (array ! i) # combination) (rec i))
                             [0..<length array + 1 - r]))"
    by (simp only: those_map_Some option.map)
  then show ?thesis
    using assms(1-3) by (subst getCombinations.simps) (simp only: if_False)
qed

lemma getCombinations_spec:
  "0 < r \<Longrightarrow> \<exists>cs. getCombinations array r = Some cs \<and> (\<forall>c \<in> set cs. length c = r)"
proof (induction r arbitrary: array)
  case 0
  then show ?case by simp
next
  case (Suc n)
  show ?case
  proof (cases "Suc n = 1 \<or> Suc n = length array")
    case True
    then show ?thesis by (subst getCombinations.simps) auto
  next
    case False
    then have n: "0 < n" by simp
    define rec where "rec i = the (getCombinations (drop (i + 1) array) n)" for i
    have r: "getCombinations (drop (i + 1) array) n = Some (rec i) \<and> (\<forall>c \<in> set (rec i). length c = n)" for i
      using Suc.IH [OF n, of "drop (i + 1) array"] by (auto simp: rec_def)
    have "getCombinations array (Suc n) =
           Some (concat (map (\<lambda>i. map (\<lambda>combination. (array ! i) # combination) (rec i))
                             [0..<length array + 1 - Suc n]))"
      using False r by (intro getCombinations_step) simp_all
    then show ?thesis using r by auto
  qed
qed

lemma getCombinations_returns: "0 < r \<Longrightarrow> \<exists>cs. getCombinations array r = Some cs"
  using getCombinations_spec by blast

lemma getCombinations_length:
  "0 < r \<Longrightarrow> getCombinations array r = Some cs \<Longrightarrow> c \<in> set cs \<Longrightarrow> length c = r"
  using getCombinations_spec [of r array] by auto

text \<open>
  C1. The spec asks for an exact run of five: six keystones in a row must not win. On the
  board whose only stones are six black keystones in row 0, \<open>checkWinCondition\<close> returns
  true: five of the six form a consecutive run, and one combination in line is enough.
\<close>

theorem checkWinCondition_six_run:
  "getKeystoneStones sixRunBoard Black =
     [\<lparr>row = 0, col = 0\<rparr>, \<lparr>row = 0, col = 1\<rparr>, \<lparr>row = 0, col = 2\<rparr>,
      \<lparr>row = 0, col = 3\<rparr>, \<lparr>row = 0, col = 4\<rparr>, \<lparr>row = 0, col = 5\<rparr>] \<and>
   checkWinCondition sixRunBoard Black = True"
  by code_simp

section \<open>Resonance claims\<close>

lemma propagateLoop_steps:
  "p \<in> set (propagateLoop n b current vector cr pl) \<Longrightarrow>
     isValidPosition p \<and> (\<exists>k. 1 \<le> k \<and> k \<le> int n \<and> p = stepsFrom current vector k)"
proof (induction n arbitrary: current)
  case 0
  then show ?case by simp
next
  case (Suc n)
  let ?next = "\<lparr>row = row current + row vector, col = col current + col vector\<rparr>"
  have first: "?next = stepsFrom current vector 1" by (simp add: stepsFrom_def)
  have later: "stepsFrom ?next vector k = stepsFrom current vector (k + 1)" for k
    by (simp add: stepsFrom_def algebra_simps)
  from Suc.prems consider
      "p = ?next" "isValidPosition ?next"
    | "p \<in> set (propagateLoop n b ?next vector cr pl)"
    by (auto simp: Let_def split: if_splits)
  then show ?case
  proof cases
    case 1
    then show ?thesis using first by (intro conjI exI [of _ 1]) simp_all
  next
    case 2
    then obtain k where "isValidPosition p" "1 \<le> k" "k \<le> int n" "p = stepsFrom ?next vector k"
      using Suc.IH by blast
    then show ?thesis using later by (intro conjI exI [of _ "k + 1"]) simp_all
  qed
qed

lemma valid_nat_eq:
  "isValidPosition p \<Longrightarrow> isValidPosition q \<Longrightarrow>
     (nat (row q) = nat (row p) \<and> nat (col q) = nat (col p)) = (q = p)"
  by (auto simp: isValidPosition_def)

lemma convertPath_other:
  "list_all isValidPosition path \<Longrightarrow> isValidPosition q \<Longrightarrow> q \<notin> set path \<Longrightarrow>
     cellAt (convertPath pl path b) q = cellAt b q"
proof (induction path arbitrary: b)
  case Nil
  then show ?case by simp
next
  case (Cons p path)
  then have "nat (row q) \<noteq> nat (row p) \<or> nat (col q) \<noteq> nat (col p)"
    using valid_nat_eq [of p q] by auto
  then have "cellAt (setStoneType b p (keystoneType pl)) q = cellAt b q"
    by (rule cellAt_setStoneType_other)
  then show ?case using Cons by simp
qed

lemma shape_convertPath: "map length (convertPath pl path b) = map length b"
  by (induction path arbitrary: b) (simp_all add: shape_setStoneType)

lemma wf_convertPath: "wf_board (convertPath pl path b) = wf_board b"
  by (simp add: wf_board_shape shape_convertPath)

lemma propagateResonance_steps:
  "p \<in> set (propagateResonance b focus d cr pl) \<Longrightarrow>
     isValidPosition p \<and> (\<exists>k. 1 \<le> k \<and> k \<le> 5 \<and> p = stepsFrom focus (directionVectors d) k)"
  unfolding propagateResonance_def using propagateLoop_steps [of p 5] by simp

lemma rays_disjoint:
  "d \<noteq> d' \<Longrightarrow> 1 \<le> k \<Longrightarrow> 1 \<le> k' \<Longrightarrow>
     stepsFrom focus (directionVectors d) k \<noteq> stepsFrom focus (directionVectors d') k'"
  by (cases d; cases d'; simp add: stepsFrom_def)

lemma focus_not_on_ray: "1 \<le> k \<Longrightarrow> stepsFrom focus (directionVectors d) k \<noteq> focus"
proof
  assume k: "1 \<le> k" and e: "stepsFrom focus (directionVectors d) k = focus"
  have "row (stepsFrom focus (directionVectors d) k) = row focus"
       "col (stepsFrom focus (directionVectors d) k) = col focus" using e by simp_all
  then show False using k by (cases d) (simp_all add: stepsFrom_def)
qed

lemma isSamePosition_iff: "isSamePosition q pos = (q = pos)"
  by (cases q; cases pos) (auto simp: isSamePosition_def)

lemma isPositionInArray_iff: "isPositionInArray pos ps = (pos \<in> set ps)"
  by (auto simp: isPositionInArray_def isSamePosition_iff list_ex_iff)

lemma resonateDirections_Cons:
  "resonateDirections (d # dirs) focus cr pl b =
     (fst (resonateDirections dirs focus cr pl
             (convertPath pl (propagateResonance b focus d cr pl) b)),
      propagateResonance b focus d cr pl #
      snd (resonateDirections dirs focus cr pl
             (convertPath pl (propagateResonance b focus d cr pl) b)))"
  by (simp add: Let_def case_prod_beta)

lemma propagateResonance_blocked:
  assumes "isValidPosition (stepsFrom focus (directionVectors d) 1)"
    and "stepsFrom focus (directionVectors d) 1 \<notin> set (positions cr)"
    and "stoneType (cellAt b (stepsFrom focus (directionVectors d) 1)) \<noteq> conduitType pl"
    and "stoneType (cellAt b (stepsFrom focus (directionVectors d) 1)) \<noteq> Empty"
  shows "propagateResonance b focus d cr pl = []"
proof -
  have "\<lparr>row = row focus + row (directionVectors d), col = col focus + col (directionVectors d)\<rparr>
          = stepsFrom focus (directionVectors d) 1"
    by (simp add: stepsFrom_def)
  then show ?thesis
    using assms
    by (simp add: propagateResonance_def numeral_eq_Suc isPositionInArray_iff Let_def)
qed

lemma resonateDirections_frame:
  assumes "isValidPosition q"
    and "\<And>d k. d \<in> set dirs \<Longrightarrow> 1 \<le> k \<Longrightarrow> q \<noteq> stepsFrom focus (directionVectors d) k"
  shows "cellAt (fst (resonateDirections dirs focus cr pl b)) q = cellAt b q"
  using assms(2)
proof (induction dirs arbitrary: b)
  case Nil
  then show ?case by simp
next
  case (Cons d dirs)
  let ?path = "propagateResonance b focus d cr pl"
  have v: "list_all isValidPosition ?path"
    using propagateResonance_steps by (auto simp: list_all_iff)
  have "q \<notin> set ?path"
    using propagateResonance_steps [of q b focus d cr pl] Cons.prems [of d] by auto
  then have "cellAt (convertPath pl ?path b) q = cellAt b q"
    using convertPath_other [OF v assms(1)] by simp
  moreover have "cellAt (fst (resonateDirections dirs focus cr pl (convertPath pl ?path b))) q
      = cellAt (convertPath pl ?path b) q"
    using Cons.IH Cons.prems by simp
  ultimately show ?case by (simp add: resonateDirections_Cons del: resonateDirections.simps)
qed

lemma length_resonateDirections:
  "length (snd (resonateDirections dirs focus cr pl b)) = length dirs"
  by (induction dirs arbitrary: b) (simp_all add: resonateDirections_Cons del: resonateDirections.simps(2))

lemma shape_resonateDirections:
  "map length (fst (resonateDirections dirs focus cr pl b)) = map length b"
  by (induction dirs arbitrary: b)
     (simp_all add: resonateDirections_Cons shape_convertPath del: resonateDirections.simps(2))

lemma paths_resonateDirections:
  "p \<in> set (concat (snd (resonateDirections dirs focus cr pl b))) \<Longrightarrow> isValidPosition p"
proof (induction dirs arbitrary: b)
  case Nil
  then show ?case by simp
next
  case (Cons d dirs)
  then show ?case
    using propagateResonance_steps [of p b focus d cr pl]
    by (auto simp: resonateDirections_Cons simp del: resonateDirections.simps(2))
qed

lemma resonateDirections_blocked:
  assumes valid: "isValidPosition (stepsFrom focus (directionVectors d) 1)"
    and outside: "stepsFrom focus (directionVectors d) 1 \<notin> set (positions cr)"
    and stone: "stoneType (cellAt b (stepsFrom focus (directionVectors d) 1)) \<noteq> conduitType pl"
               "stoneType (cellAt b (stepsFrom focus (directionVectors d) 1)) \<noteq> Empty"
    and agree: "\<And>k. 1 \<le> k \<Longrightarrow> isValidPosition (stepsFrom focus (directionVectors d) k) \<Longrightarrow>
                 cellAt b' (stepsFrom focus (directionVectors d) k)
                   = cellAt b (stepsFrom focus (directionVectors d) k)"
  shows "(\<forall>k. 1 \<le> k \<longrightarrow> isValidPosition (stepsFrom focus (directionVectors d) k) \<longrightarrow>
             cellAt (fst (resonateDirections dirs focus cr pl b')) (stepsFrom focus (directionVectors d) k)
               = cellAt b (stepsFrom focus (directionVectors d) k)) \<and>
         (\<forall>i < length dirs. dirs ! i = d \<longrightarrow> snd (resonateDirections dirs focus cr pl b') ! i = [])"
  using agree
proof (induction dirs arbitrary: b')
  case Nil
  then show ?case by simp
next
  case (Cons d0 dirs)
  let ?path = "propagateResonance b' focus d0 cr pl"
  let ?b'' = "convertPath pl ?path b'"
  have v: "list_all isValidPosition ?path"
    using propagateResonance_steps by (auto simp: list_all_iff)
  have blocked: "d0 = d \<Longrightarrow> ?path = []"
  proof -
    assume e: "d0 = d"
    have "cellAt b' (stepsFrom focus (directionVectors d) 1) = cellAt b (stepsFrom focus (directionVectors d) 1)"
      using Cons.prems [of 1] valid by simp
    then show "?path = []"
      unfolding e using propagateResonance_blocked [of focus d cr b' pl] valid outside stone by simp
  qed
  have keep: "cellAt ?b'' (stepsFrom focus (directionVectors d) k) = cellAt b (stepsFrom focus (directionVectors d) k)"
    if k: "1 \<le> k" and vk: "isValidPosition (stepsFrom focus (directionVectors d) k)" for k
  proof (cases "d0 = d")
    case True
    then show ?thesis using blocked Cons.prems [OF k vk] by simp
  next
    case False
    have "stepsFrom focus (directionVectors d) k \<notin> set ?path"
      using propagateResonance_steps [of "stepsFrom focus (directionVectors d) k" b' focus d0 cr pl]
        rays_disjoint [OF False [symmetric] k] by auto
    then show ?thesis using convertPath_other [OF v vk] Cons.prems [OF k vk] by simp
  qed
  have ih: "(\<forall>k. 1 \<le> k \<longrightarrow> isValidPosition (stepsFrom focus (directionVectors d) k) \<longrightarrow>
             cellAt (fst (resonateDirections dirs focus cr pl ?b'')) (stepsFrom focus (directionVectors d) k)
               = cellAt b (stepsFrom focus (directionVectors d) k)) \<and>
         (\<forall>i < length dirs. dirs ! i = d \<longrightarrow> snd (resonateDirections dirs focus cr pl ?b'') ! i = [])"
    using Cons.IH [of ?b''] keep by blast
  have res: "resonateDirections (d0 # dirs) focus cr pl b' =
      (fst (resonateDirections dirs focus cr pl ?b''),
       ?path # snd (resonateDirections dirs focus cr pl ?b''))"
    by (rule resonateDirections_Cons)
  show ?case
  proof (intro conjI allI impI)
    fix k assume "1 \<le> k" "isValidPosition (stepsFrom focus (directionVectors d) k)"
    then show "cellAt (fst (resonateDirections (d0 # dirs) focus cr pl b')) (stepsFrom focus (directionVectors d) k)
               = cellAt b (stepsFrom focus (directionVectors d) k)"
      using ih res by simp
  next
    fix i assume i: "i < length (d0 # dirs)" "(d0 # dirs) ! i = d"
    show "snd (resonateDirections (d0 # dirs) focus cr pl b') ! i = []"
    proof (cases i)
      case 0
      then show ?thesis using i blocked res by simp
    next
      case (Suc j)
      then show ?thesis using i ih res by simp
    qed
  qed
qed

lemma detectCores_cases:
  assumes "cr \<in> set (detectCores b owner)"
  obtains r c where "cr = coreAt b r c" and "isValidCore (fourCells b r c) owner"
  using assms unfolding detectCores_def set_scan by blast

lemma owner_stone_cases:
  "st = conduitType owner \<or> st = keystoneType owner \<Longrightarrow>
     (if includesBlack st then Black else White) = owner \<and> st \<noteq> Empty \<and>
     st \<noteq> conduitType (otherPlayer owner) \<and> st \<noteq> keystoneType (otherPlayer owner)"
  by (cases owner) (auto simp: otherPlayer_def)

lemma coreAt_stones:
  assumes "isValidCore (fourCells b r c) owner" and "p \<in> set (positions (coreAt b r c))"
  shows "stoneType (cellAt b p) = conduitType owner \<or> stoneType (cellAt b p) = keystoneType owner"
proof -
  have "nat (int r + 1) = r + 1" "nat (int c + 1) = c + 1" by simp_all
  then show ?thesis
    using assms by (auto simp: coreAt_def isValidCore_def fourCells_def cellAt_def)
qed

lemma activateResonance_valid_core:
  assumes "isValidCore (fourCells b r c) owner"
  shows "activateResonance b' (coreAt b r c) focus =
           Inr (resonateDirections [Up, Down, Left, Right] focus (coreAt b r c) owner b')"
proof -
  have "stoneType (b ! r ! c) = conduitType owner \<or> stoneType (b ! r ! c) = keystoneType owner"
    using assms by (simp add: isValidCore_def fourCells_def)
  then have "(if includesBlack (stoneType (b ! r ! c)) then Black else White) = owner"
    using owner_stone_cases by blast
  then show ?thesis by (simp add: activateResonance_def coreAt_def fourCells_def)
qed

lemma directions_nth: "[Up, Down, Left, Right] ! directionIndex d = d"
  by (cases d) simp_all

lemma set_dedup:
  "set (foldl (\<lambda>acc pos. if list_ex (\<lambda>q. row q = row pos \<and> col q = col pos) acc
                           then acc else acc @ [pos]) init xs) \<subseteq> set init \<union> set xs"
proof (induction xs arbitrary: init)
  case Nil
  then show ?case by simp
next
  case (Cons a xs)
  show ?case
  proof (cases "list_ex (\<lambda>q. row q = row a \<and> col q = col a) init")
    case True
    then show ?thesis using Cons.IH [of init] by auto
  next
    case False
    then show ?thesis using Cons.IH [of "init @ [a]"] by auto
  qed
qed

lemma activateResonance_focal:
  assumes "isValidPosition focus" and "coreStones cr \<noteq> []"
  shows "\<exists>newBoard paths.
           activateResonance b cr focus = Inr (newBoard, paths) \<and>
           cellAt newBoard focus = cellAt b focus \<and>
           map length newBoard = map length b \<and>
           list_all isValidPosition (concat paths)"
proof -
  obtain stone0 rest where st: "coreStones cr = stone0 # rest"
    using assms(2) by (cases "coreStones cr") auto
  let ?pl = "if includesBlack (stoneType stone0) then Black else White"
  let ?res = "resonateDirections [Up, Down, Left, Right] focus cr ?pl b"
  have a: "activateResonance b cr focus = Inr (fst ?res, snd ?res)"
    by (simp add: activateResonance_def st del: resonateDirections.simps)
  have "cellAt (fst ?res) focus = cellAt b focus"
    using focus_not_on_ray [of _ focus] by (intro resonateDirections_frame [OF assms(1)]) metis
  moreover have "list_all isValidPosition (concat (snd ?res))"
    using paths_resonateDirections unfolding list_all_iff by blast
  ultimately show ?thesis using a shape_resonateDirections by blast
qed

lemma coreBoard_core:
  "coreAt coreBoard 0 0 \<in> set (detectCores coreBoard Black)"
  "\<lparr>row = 0, col = 0\<rparr> \<in> set (positions (coreAt coreBoard 0 0))"
  "stoneType (cellAt coreBoard \<lparr>row = 0, col = 0\<rparr>) = BlackConduit"
  "coreStones (coreAt coreBoard 0 0) \<noteq> []"
  by code_simp+

lemma valid00: "isValidPosition \<lparr>row = 0, col = 0\<rparr>"
  by (simp add: isValidPosition_def BOARD_SIZE_def)

text \<open>
  C4 (as amended). \<open>activateResonance\<close> itself never changes the focal cell: the board it
  returns has the focal cell as it found it. The conversion is the work of
  \<open>selectFocusPosition\<close>, before it calls \<open>activateResonance\<close>: with a core selected and a
  core owner stored, the board it leaves has the owner's keystone on the focal cell when
  the cell held the owner's conductor, and otherwise the stone the cell held (a keystone
  stays a keystone).
\<close>

theorem focal_cell_conversion:
  assumes "selectedCore s = Some cr" and "corePlayer s = Some owner"
    and "coreStones cr \<noteq> []" and "wf_board (board s)" and "isValidPosition focus"
  shows "(\<exists>newBoard paths. activateResonance (board s) cr focus = Inr (newBoard, paths) \<and>
                          cellAt newBoard focus = cellAt (board s) focus) \<and>
         (\<exists>s'. selectFocusPosition s focus = Inr s' \<and>
               stoneType (cellAt (board s') focus) =
                 (if stoneType (cellAt (board s) focus) = conduitType owner
                  then keystoneType owner else stoneType (cellAt (board s) focus)))"
proof
  show "\<exists>newBoard paths. activateResonance (board s) cr focus = Inr (newBoard, paths) \<and>
                          cellAt newBoard focus = cellAt (board s) focus"
    using activateResonance_focal [OF assms(5) assms(3)] by blast
next
  let ?fb = "if stoneType (cellAt (board s) focus) = conduitType owner
             then setStoneType (board s) focus (keystoneType owner) else board s"
  have inb: "inBoard (board s) focus" using assms(4,5) by (simp add: inBoard_wf)
  have wf_fb: "wf_board ?fb" using assms(4) by (simp add: wf_board_setStoneType)
  have fb: "stoneType (cellAt ?fb focus) =
              (if stoneType (cellAt (board s) focus) = conduitType owner
               then keystoneType owner else stoneType (cellAt (board s) focus))"
    using inb by (simp add: stoneType_setStoneType_same)
  obtain nb paths where act: "activateResonance ?fb cr focus = Inr (nb, paths)"
    and same: "cellAt nb focus = cellAt ?fb focus"
    and shape: "map length nb = map length ?fb"
    and pv: "list_all isValidPosition (concat paths)"
    using activateResonance_focal [OF assms(5) assms(3), of ?fb] by blast
  have wf_nb: "wf_board nb" using wf_fb shape by (simp add: wf_board_shape)
  define s1 where "s1 = addEvent s
      \<lparr>eventType = ResonanceActivated, eventPlayer = owner,
       details = Some (noDetails\<lparr>detailPosition := Some focus, detailCore := Some cr,
                                  detailResonancePaths := Some paths\<rparr>)\<rparr>"
  define convertedStones where "convertedStones =
      (if stoneType (cellAt (board s) focus) = conduitType owner then [focus] else []) @
      filter (\<lambda>q. includesKeystone (stoneType (cellAt nb q)) \<and>
                   includesConduit (stoneType (cellAt (board s) q))) (concat paths)"
  define s2 where "s2 = (if length convertedStones > 0
      then addEvent s1 \<lparr>eventType = StoneConverted, eventPlayer = owner,
                        details = Some (noDetails\<lparr>detailConvertedStones := Some convertedStones\<rparr>)\<rparr>
      else s1)"
  define move where "move =
      \<lparr>moveNumber = currentMoveIndex s2 + 1, player = owner, moveType = ResonanceMove,
       movePosition = focus, previousBoard = board s, currentBoard = nb,
       resonanceInfo = Some \<lparr>resonanceCore = cr, focusPosition = focus, resonancePaths = paths\<rparr>,
       lShapeInfo = None\<rparr>"
  have sel: "selectFocusPosition s focus = completeTurn s2 move"
    using assms(1,2) inb act
    by (simp add: selectFocusPosition_def Let_def s1_def convertedStones_def s2_def move_def)
  have "set (affectedPositions move) \<subseteq> set [focus, focus] \<union> set (concat paths)"
    unfolding move_def affectedPositions_def using set_dedup [of "[focus, focus]" "concat paths"]
    by simp
  then have "list_all isValidPosition (affectedPositions move)"
    using pv assms(5) unfolding list_all_iff by auto
  then have "list_all (inBoard (currentBoard move)) (affectedPositions move)"
    using wf_nb by (simp add: move_def list_all_iff inBoard_wf)
  then obtain ub where ub: "updateNotation move = Inr ub"
    and g: "stoneGrid ub = stoneGrid (currentBoard move)"
    using updateNotation_returns by blast
  obtain s' where s': "completeTurn s2 move = Inr s'" "board s' = ub"
    using completeTurn_Inr [OF ub, of s2] by blast
  have g': "stoneGrid (board s') = stoneGrid nb" using g s' by (simp add: move_def)
  have "inBoard nb focus" using wf_nb assms(5) by (simp add: inBoard_wf)
  moreover have "inBoard (board s') focus" using g' calculation inBoard_stoneGrid by blast
  ultimately have "stoneType (cellAt (board s') focus) = stoneType (cellAt nb focus)"
    using g' by (simp add: stoneType_cellAt)
  then show "\<exists>s'. selectFocusPosition s focus = Inr s' \<and>
               stoneType (cellAt (board s') focus) =
                 (if stoneType (cellAt (board s) focus) = conduitType owner
                  then keystoneType owner else stoneType (cellAt (board s) focus))"
    using sel s' same fb by (intro exI [of _ s']) simp
qed

theorem focal_cell_conversion_witness:
  "selectedCore focusState = Some (coreAt coreBoard 0 0) \<and>
   corePlayer focusState = Some Black \<and>
   coreStones (coreAt coreBoard 0 0) \<noteq> [] \<and>
   wf_board (board focusState) \<and> isValidPosition \<lparr>row = 0, col = 0\<rparr> \<and>
   stoneType (cellAt (board focusState) \<lparr>row = 0, col = 0\<rparr>) = BlackConduit \<and>
   (\<exists>s'. selectFocusPosition focusState \<lparr>row = 0, col = 0\<rparr> = Inr s' \<and>
         stoneType (cellAt (board s') \<lparr>row = 0, col = 0\<rparr>) = BlackKeystone) \<and>
   stoneType (cellAt (board keystoneFocusState) \<lparr>row = 0, col = 0\<rparr>) = BlackKeystone \<and>
   (\<exists>s'. selectFocusPosition keystoneFocusState \<lparr>row = 0, col = 0\<rparr> = Inr s' \<and>
         stoneType (cellAt (board s') \<lparr>row = 0, col = 0\<rparr>) = BlackKeystone)"
proof -
  have f: "selectedCore focusState = Some (coreAt coreBoard 0 0)"
    "corePlayer focusState = Some Black" "wf_board (board focusState)"
    "board focusState = coreBoard"
    by (simp_all add: focusState_def selectCore_def resonatingState_def initialState_def
        coreBoard_def wf_boardWith)
  have k: "selectedCore keystoneFocusState = Some (coreAt coreBoard 0 0)"
    "corePlayer keystoneFocusState = Some Black" "wf_board (board keystoneFocusState)"
    "stoneType (cellAt (board keystoneFocusState) \<lparr>row = 0, col = 0\<rparr>) = BlackKeystone"
    by (simp_all add: keystoneFocusState_def focusState_def selectCore_def resonatingState_def
        initialState_def coreBoard_def wf_boardWith wf_board_setStoneType
        stoneType_setStoneType_same inBoard_wf valid00)
  show ?thesis
    using focal_cell_conversion [OF f(1) f(2) coreBoard_core(4) f(3) valid00]
      focal_cell_conversion [OF k(1) k(2) coreBoard_core(4) k(3) valid00]
      f k coreBoard_core valid00
    by simp
qed

text \<open>
  The claim as the spec states it fails: for the core at the corner of \<open>coreBoard\<close> and its
  cell \<open>(0, 0)\<close>, which holds black's conductor, the board \<open>activateResonance\<close> returns
  still has the conductor there.
\<close>

theorem activateResonance_focal_counterexample:
  "coreAt coreBoard 0 0 \<in> set (detectCores coreBoard Black) \<and>
   \<lparr>row = 0, col = 0\<rparr> \<in> set (positions (coreAt coreBoard 0 0)) \<and>
   stoneType (cellAt coreBoard \<lparr>row = 0, col = 0\<rparr>) = BlackConduit \<and>
   \<not> isl (activateResonance coreBoard (coreAt coreBoard 0 0) \<lparr>row = 0, col = 0\<rparr>) \<and>
   stoneType (cellAt (fst (projr (activateResonance coreBoard (coreAt coreBoard 0 0)
                                     \<lparr>row = 0, col = 0\<rparr>)))
                     \<lparr>row = 0, col = 0\<rparr>) = BlackConduit"
proof -
  obtain newBoard paths where
    "activateResonance coreBoard (coreAt coreBoard 0 0) \<lparr>row = 0, col = 0\<rparr> = Inr (newBoard, paths)"
    "cellAt newBoard \<lparr>row = 0, col = 0\<rparr> = cellAt coreBoard \<lparr>row = 0, col = 0\<rparr>"
    using activateResonance_focal [OF valid00 coreBoard_core(4)] by blast
  then show ?thesis using coreBoard_core by simp
qed

lemma detectCores_coreHeldBy:
  assumes "cr \<in> set (detectCores b owner)"
  shows "coreHeldBy b cr owner"
proof -
  obtain r c where cr: "cr = coreAt b r c" and vc: "isValidCore (fourCells b r c) owner"
    using assms by (rule detectCores_cases)
  have "stoneType (b ! r ! c) = conduitType owner \<or> stoneType (b ! r ! c) = keystoneType owner"
    using vc by (simp add: isValidCore_def fourCells_def)
  then have o: "(if includesBlack (stoneType (b ! r ! c)) then Black else White) = owner"
    using owner_stone_cases by blast
  have "list_all (\<lambda>p. stoneType (cellAt b p) = conduitType owner \<or>
                       stoneType (cellAt b p) = keystoneType owner) (positions cr)"
    unfolding cr list_all_iff using coreAt_stones [OF vc] by blast
  then show ?thesis using o by (simp add: coreHeldBy_def cr coreAt_def fourCells_def)
qed

lemma coreHeldBy_resonance:
  assumes "coreHeldBy b cr owner"
  shows "activateResonance b' cr focus =
           Inr (resonateDirections [Up, Down, Left, Right] focus cr owner b')"
  using assms
  by (auto simp: coreHeldBy_def activateResonance_def simp del: resonateDirections.simps
      split: list.splits)

lemma detectCoresWithNewStone_detectCores:
  assumes "cr \<in> set (detectCoresWithNewStone b pl pos)"
  shows "cr \<in> set (detectCores b pl)"
proof -
  from assms consider
      "cr \<in> set (candidateCores b pl (row pos) (col pos))"
    | "cr \<in> set (candidateCores b pl (row pos) (col pos - 1))"
    | "cr \<in> set (candidateCores b pl (row pos - 1) (col pos))"
    | "cr \<in> set (candidateCores b pl (row pos - 1) (col pos - 1))"
    unfolding detectCoresWithNewStone_candidates by auto
  then show ?thesis by cases (simp_all add: candidateCores_sound)
qed

lemma detectCores_positions_valid:
  assumes "cr \<in> set (detectCores b pl)"
  shows "list_all isValidPosition (positions cr)"
proof -
  obtain r c where "cr = coreAt b r c" "r \<in> set [0..<BOARD_SIZE - 1]" "c \<in> set [0..<BOARD_SIZE - 1]"
    using assms unfolding detectCores_def set_scan by blast
  then show ?thesis by (auto simp: coreAt_def isValidPosition_def)
qed

lemma stoneType_cellAt_stoneGrid:
  assumes "wf_board b" and "stoneGrid b = stoneGrid b'" and "isValidPosition p"
  shows "stoneType (cellAt b p) = stoneType (cellAt b' p)"
proof -
  have "wf_board b'" using assms(1,2) wf_board_stoneGrid by blast
  then have "inBoard b p" "inBoard b' p" using assms(1,3) by (simp_all add: inBoard_wf)
  then show ?thesis using assms(2) by (simp add: stoneType_cellAt)
qed

lemma coreHeldBy_stoneGrid:
  assumes "wf_board b" and "stoneGrid b = stoneGrid b'"
    and "list_all isValidPosition (positions cr)" and "coreHeldBy b cr owner"
  shows "coreHeldBy b' cr owner"
proof -
  have "\<And>p. p \<in> set (positions cr) \<Longrightarrow> stoneType (cellAt b' p) = stoneType (cellAt b p)"
    using stoneType_cellAt_stoneGrid [OF assms(1,2)] assms(3) by (simp add: list_all_iff)
  then show ?thesis
    using assms(4) by (auto simp: coreHeldBy_def list_all_iff split: list.splits)
qed

lemma coreHeldBy_focus:
  assumes "coreHeldBy b cr owner" and "inBoard b focus"
  shows "coreHeldBy (if stoneType (cellAt b focus) = conduitType owner
                     then setStoneType b focus (keystoneType owner) else b) cr owner"
proof (cases "stoneType (cellAt b focus) = conduitType owner")
  case False
  then show ?thesis using assms(1) by simp
next
  case True
  have "stoneType (cellAt (setStoneType b focus (keystoneType owner)) p) = conduitType owner \<or>
        stoneType (cellAt (setStoneType b focus (keystoneType owner)) p) = keystoneType owner"
    if "stoneType (cellAt b p) = conduitType owner \<or> stoneType (cellAt b p) = keystoneType owner"
    for p
  proof (cases "nat (row p) = nat (row focus) \<and> nat (col p) = nat (col focus)")
    case same: True
    then have "cellAt (setStoneType b focus (keystoneType owner)) p
                 = cellAt (setStoneType b focus (keystoneType owner)) focus"
      by (simp add: cellAt_def)
    then show ?thesis using stoneType_setStoneType_same [OF assms(2)] by simp
  next
    case False
    then have "cellAt (setStoneType b focus (keystoneType owner)) p = cellAt b p"
      by (intro cellAt_setStoneType_other) auto
    then show ?thesis using that by simp
  qed
  then show ?thesis
    using assms(1) True by (auto simp: coreHeldBy_def list_all_iff split: list.splits)
qed

lemma completeTurn_selectedCores: "completeTurn s move = Inr s' \<Longrightarrow> selectedCores s' = []"
  by (auto simp: completeTurn_def Let_def updateAvailableMoves_def updateConvertibleStones_def
      addEvent_def split: sum.splits if_splits)

lemma placeStone_offers_held_cores:
  assumes "gameStatus s = Playing" and "\<not> isHistoryMode s"
    and "wf_board (board s)" and "isValidPosition pos"
    and "placeStone s pos = Inr s'" and "cr \<in> set (selectedCores s')"
  shows "coreHeldBy (board s') cr (currentPlayer s) \<and> corePlayer s' = Some (currentPlayer s) \<and>
         wf_board (board s')"
proof -
  let ?nb = "setStoneType (board s) pos (conduitType (currentPlayer s))"
  let ?s1 = "addEvent s \<lparr>eventType = StonePlaced, eventPlayer = currentPlayer s,
                         details = Some (noDetails\<lparr>detailPosition := Some pos\<rparr>)\<rparr>"
  let ?m = "\<lparr>moveNumber = currentMoveIndex ?s1 + 1, player = currentPlayer s,
             moveType = Place, movePosition = pos, previousBoard = board s,
             currentBoard = ?nb, resonanceInfo = None, lShapeInfo = None\<rparr>"
  let ?cores = "detectCoresWithNewStone ?nb (currentPlayer s) pos"
  have inb: "inBoard (board s) pos" using assms(3,4) by (simp add: inBoard_wf)
  have wf_nb: "wf_board ?nb" using assms(3) by (simp add: wf_board_setStoneType)
  show ?thesis
  proof (cases "length ?cores > 0")
    case False
    then have "completeTurn ?s1 ?m = Inr s'"
      using assms(1,2,5) inb by (simp add: placeStone_def Let_def)
    then have "selectedCores s' = []" by (rule completeTurn_selectedCores)
    then show ?thesis using assms(6) by simp
  next
    case True
    have "inBoard ?nb pos" using inb by (simp add: inBoard_setStoneType)
    from updateNotation_place [OF this]
    obtain ub where ub: "updateNotation ?m = Inr ub" "stoneGrid ub = stoneGrid ?nb"
      by blast
    have s': "board s' = ub" "selectedCores s' = ?cores" "corePlayer s' = Some (currentPlayer s)"
      using assms(1,2,5) inb True ub
      by (auto simp: placeStone_def Let_def addEvent_def)
    have det: "cr \<in> set (detectCores ?nb (currentPlayer s))"
      using assms(6) s'(2) detectCoresWithNewStone_detectCores by simp
    have "coreHeldBy ub cr (currentPlayer s)"
      using coreHeldBy_stoneGrid [OF wf_nb ub(2) [symmetric]
          detectCores_positions_valid [OF det] detectCores_coreHeldBy [OF det]] .
    moreover have "wf_board ub" using wf_nb ub(2) wf_board_stoneGrid by blast
    ultimately show ?thesis using s' by simp
  qed
qed

lemma store_resonance_core_held:
  assumes "gameStatus s = Playing" and "\<not> isHistoryMode s"
    and "wf_board (board s)" and "isValidPosition pos"
    and "placeStone s pos = Inr s1" and "cr \<in> set (selectedCores s1)"
    and "isValidPosition focus"
  shows "selectedCore (selectCore s1 cr) = Some cr \<and>
         corePlayer (selectCore s1 cr) = Some (currentPlayer s) \<and>
         coreHeldBy (if stoneType (cellAt (board (selectCore s1 cr)) focus) = conduitType (currentPlayer s)
                     then setStoneType (board (selectCore s1 cr)) focus (keystoneType (currentPlayer s))
                     else board (selectCore s1 cr))
                    cr (currentPlayer s)"
proof -
  have held: "coreHeldBy (board s1) cr (currentPlayer s)" "corePlayer s1 = Some (currentPlayer s)"
    "wf_board (board s1)"
    using placeStone_offers_held_cores [OF assms(1-6)] by simp_all
  have "inBoard (board s1) focus" using held(3) assms(7) by (simp add: inBoard_wf)
  from coreHeldBy_focus [OF held(1) this]
  have "coreHeldBy (if stoneType (cellAt (board s1) focus) = conduitType (currentPlayer s)
                    then setStoneType (board s1) focus (keystoneType (currentPlayer s))
                    else board s1) cr (currentPlayer s)" .
  moreover have "board (selectCore s1 cr) = board s1" "selectedCore (selectCore s1 cr) = Some cr"
    "corePlayer (selectCore s1 cr) = corePlayer s1"
    by (simp_all add: selectCore_def)
  ultimately show ?thesis using held(2) by (simp del: split_paired_All cong: if_cong)
qed

lemma pending_facts:
  "\<not> isl (placeStone coreReadyState \<lparr>row = 1, col = 1\<rparr>)"
  "gamePhase pendingState = Resonating"
  "selectedCores pendingState = [pendingCore]"
  "corePlayer pendingState = Some Black"
  "pendingCore \<notin> set (detectCores (board pendingState) Black)"
  "coreHeldBy focusedBoard pendingCore Black"
  "\<lparr>row = 0, col = 1\<rparr> \<in> set (positions pendingCore)"
  "stoneType (cellAt focusedBoard \<lparr>row = 0, col = 1\<rparr>) = BlackKeystone"
  "stoneType (cellAt focusedBoard \<lparr>row = 0, col = 2\<rparr>) = WhiteConduit"
  "stoneType (cellAt focusedBoard \<lparr>row = 0, col = 3\<rparr>) = BlackConduit"
  by code_simp+

text \<open>
  C7. When the cell one step from the focal position in a direction lies on the board and
  holds a stone of the owner's opponent, \<open>activateResonance\<close> returns, the path it returns
  for that direction is empty, and every cell of the board in that direction is as it was.
  The core is any core held by the owner on the board: a core \<open>detectCores\<close> finds on it, or
  the core the store has kept from the placement while the board went on to receive its
  notation and the focal conversion.
\<close>

theorem blocked_direction_empty_path:
  assumes core: "coreHeldBy b cr owner"
    and focal: "focus \<in> set (positions cr)"
    and valid: "isValidPosition (stepsFrom focus (directionVectors d) 1)"
    and opponent: "stoneType (cellAt b (stepsFrom focus (directionVectors d) 1)) = conduitType (otherPlayer owner)
                 \<or> stoneType (cellAt b (stepsFrom focus (directionVectors d) 1)) = keystoneType (otherPlayer owner)"
  shows "\<exists>newBoard paths.
           activateResonance b cr focus = Inr (newBoard, paths) \<and>
           length paths = 4 \<and>
           paths ! directionIndex d = [] \<and>
           (\<forall>k. 1 \<le> k \<longrightarrow> isValidPosition (stepsFrom focus (directionVectors d) k) \<longrightarrow>
                cellAt newBoard (stepsFrom focus (directionVectors d) k)
                  = cellAt b (stepsFrom focus (directionVectors d) k))"
proof -
  let ?next = "stepsFrom focus (directionVectors d) 1"
  let ?dirs = "[Up, Down, Left, Right]"
  have held: "\<And>p. p \<in> set (positions cr) \<Longrightarrow>
      stoneType (cellAt b p) = conduitType owner \<or> stoneType (cellAt b p) = keystoneType owner"
    using core by (auto simp: coreHeldBy_def list_all_iff split: list.splits)
  have outside: "?next \<notin> set (positions cr)"
  proof
    assume "?next \<in> set (positions cr)"
    then have "stoneType (cellAt b ?next) = conduitType owner \<or> stoneType (cellAt b ?next) = keystoneType owner"
      by (rule held)
    then show False using owner_stone_cases opponent by metis
  qed
  have stone: "stoneType (cellAt b ?next) \<noteq> conduitType owner" "stoneType (cellAt b ?next) \<noteq> Empty"
    using opponent by (cases owner; auto simp: otherPlayer_def)+
  have res: "activateResonance b cr focus = Inr (resonateDirections ?dirs focus cr owner b)"
    by (rule coreHeldBy_resonance [OF core])
  have blocked:
    "(\<forall>k. 1 \<le> k \<longrightarrow> isValidPosition (stepsFrom focus (directionVectors d) k) \<longrightarrow>
         cellAt (fst (resonateDirections ?dirs focus cr owner b)) (stepsFrom focus (directionVectors d) k)
           = cellAt b (stepsFrom focus (directionVectors d) k)) \<and>
     (\<forall>i < length ?dirs. ?dirs ! i = d \<longrightarrow> snd (resonateDirections ?dirs focus cr owner b) ! i = [])"
    by (rule resonateDirections_blocked [OF valid outside stone]) simp
  have "directionIndex d < length ?dirs" by (cases d) simp_all
  then have empty: "snd (resonateDirections ?dirs focus cr owner b) ! directionIndex d = []"
    using blocked directions_nth by blast
  have len: "length (snd (resonateDirections ?dirs focus cr owner b)) = 4"
    by (simp only: length_resonateDirections) simp
  show ?thesis
    using res blocked empty len
    by (intro exI [of _ "fst (resonateDirections ?dirs focus cr owner b)"]
              exI [of _ "snd (resonateDirections ?dirs focus cr owner b)"]) simp
qed

theorem blocked_direction_empty_path_witness:
  "selectedCores pendingState = [pendingCore] \<and>
   coreHeldBy focusedBoard pendingCore Black \<and>
   \<lparr>row = 0, col = 1\<rparr> \<in> set (positions pendingCore) \<and>
   stepsFrom \<lparr>row = 0, col = 1\<rparr> (directionVectors Right) 1 = \<lparr>row = 0, col = 2\<rparr> \<and>
   isValidPosition \<lparr>row = 0, col = 2\<rparr> \<and>
   stoneType (cellAt focusedBoard \<lparr>row = 0, col = 2\<rparr>) = conduitType (otherPlayer Black) \<and>
   stoneType (cellAt focusedBoard \<lparr>row = 0, col = 3\<rparr>) = BlackConduit \<and>
   (\<exists>newBoard paths.
      activateResonance focusedBoard pendingCore \<lparr>row = 0, col = 1\<rparr> = Inr (newBoard, paths) \<and>
      paths ! 3 = [] \<and>
      stoneType (cellAt newBoard \<lparr>row = 0, col = 3\<rparr>) = BlackConduit)"
proof -
  let ?focus = "\<lparr>row = 0, col = 1\<rparr>"
  have s1: "stepsFrom ?focus (directionVectors Right) 1 = \<lparr>row = 0, col = 2\<rparr>"
    and s2: "stepsFrom ?focus (directionVectors Right) 2 = \<lparr>row = 0, col = 3\<rparr>"
    by (simp_all add: stepsFrom_def)
  have v: "isValidPosition \<lparr>row = 0, col = 2\<rparr>" "isValidPosition \<lparr>row = 0, col = 3\<rparr>"
    by (simp_all add: isValidPosition_def BOARD_SIZE_def)
  have o: "stoneType (cellAt focusedBoard \<lparr>row = 0, col = 2\<rparr>) = conduitType (otherPlayer Black)"
    using pending_facts(9) by (simp add: otherPlayer_def)
  obtain newBoard paths where
    r: "activateResonance focusedBoard pendingCore ?focus = Inr (newBoard, paths)"
      "paths ! directionIndex Right = []"
    and keep: "\<forall>k. 1 \<le> k \<longrightarrow> isValidPosition (stepsFrom ?focus (directionVectors Right) k) \<longrightarrow>
                cellAt newBoard (stepsFrom ?focus (directionVectors Right) k)
                  = cellAt focusedBoard (stepsFrom ?focus (directionVectors Right) k)"
    using blocked_direction_empty_path [of focusedBoard pendingCore Black ?focus Right]
      pending_facts(6,7) v(1) o unfolding s1 by blast
  have "cellAt newBoard \<lparr>row = 0, col = 3\<rparr> = cellAt focusedBoard \<lparr>row = 0, col = 3\<rparr>"
    using keep [rule_format, of 2] v(2) unfolding s2 by simp
  then show ?thesis using r pending_facts s1 v o by simp
qed

section \<open>The boards of reachable states\<close>

lemma completeTurn_cases:
  assumes "completeTurn s move = Inr s'"
  obtains ub where "updateNotation move = Inr ub" "board s' = ub"
    "moveHistory s' = moveHistory s @ [move]"
proof (cases "updateNotation move")
  case (Inl e)
  then show ?thesis using assms by (simp add: completeTurn_Inl)
next
  case (Inr ub)
  then show ?thesis using completeTurn_Inr [OF Inr, of s] assms that by auto
qed

lemma completeTurn_boardInvariant:
  assumes "boardInvariant s" and "wf_board (previousBoard move)" and "wf_board (currentBoard move)"
    and "completeTurn s move = Inr s'"
  shows "boardInvariant s'"
proof -
  obtain ub where ub: "updateNotation move = Inr ub" "board s' = ub"
    "moveHistory s' = moveHistory s @ [move]"
    using assms(4) by (rule completeTurn_cases)
  have "wf_board ub"
    using updateNotation_stoneGrid [OF ub(1)] wf_board_stoneGrid assms(3) by blast
  then show ?thesis using assms(1-3) ub by (simp add: boardInvariant_def)
qed

lemma boardInvariant_addEvent [simp]: "boardInvariant (addEvent s event) = boardInvariant s"
  by (simp add: boardInvariant_def addEvent_def)

lemma placeStone_boardInvariant:
  assumes "boardInvariant s" and "placeStone s pos = Inr s'"
  shows "boardInvariant s'"
proof (cases "gameStatus s \<noteq> Playing \<or> isHistoryMode s")
  case True
  then show ?thesis using assms by (simp add: placeStone_noop)
next
  case False
  let ?nb = "setStoneType (board s) pos (conduitType (currentPlayer s))"
  let ?s1 = "addEvent s \<lparr>eventType = StonePlaced, eventPlayer = currentPlayer s,
                         details = Some (noDetails\<lparr>detailPosition := Some pos\<rparr>)\<rparr>"
  let ?m = "\<lparr>moveNumber = currentMoveIndex ?s1 + 1, player = currentPlayer s,
             moveType = Place, movePosition = pos, previousBoard = board s,
             currentBoard = ?nb, resonanceInfo = None, lShapeInfo = None\<rparr>"
  have wf: "wf_board (board s)" "wf_board ?nb"
    using assms(1) by (simp_all add: boardInvariant_def wf_board_setStoneType)
  have inb: "inBoard (board s) pos"
    using False assms(2) by (auto simp: placeStone_def split: if_splits)
  show ?thesis
  proof (cases "length (detectCoresWithNewStone ?nb (currentPlayer s) pos) > 0")
    case True
    have "inBoard ?nb pos" using inb by (simp add: inBoard_setStoneType)
    from updateNotation_place [OF this]
    obtain ub where ub: "updateNotation ?m = Inr ub" "stoneGrid ub = stoneGrid ?nb"
      by blast
    then have "wf_board ub" using wf wf_board_stoneGrid by blast
    then show ?thesis
      using assms False True inb ub wf
      by (auto simp: placeStone_def Let_def addEvent_def boardInvariant_def)
  next
    case F: False
    have "completeTurn ?s1 ?m = Inr s'"
      using assms(2) False F inb by (simp add: placeStone_def Let_def)
    then show ?thesis
      using completeTurn_boardInvariant [of ?s1 ?m s'] assms(1) wf by simp
  qed
qed

lemma convertLShape_boardInvariant:
  assumes "boardInvariant s" and "convertLShape s shape i = Inr s'"
  shows "boardInvariant s'"
proof (cases "gameStatus s \<noteq> Playing \<or> isHistoryMode s")
  case True
  then show ?thesis using assms by (simp add: convertLShape_def)
next
  case False
  have wf: "wf_board (board s)" using assms(1) by (simp add: boardInvariant_def)
  show ?thesis
    using assms False wf
    by (auto simp: convertLShape_def Let_def wf_board_setStoneType split: if_splits
        elim!: completeTurn_boardInvariant [rotated 3])
qed

lemma activateResonance_shape:
  "activateResonance b cr focus = Inr (nb, paths) \<Longrightarrow> map length nb = map length b"
  using shape_resonateDirections [of "[Up, Down, Left, Right]" focus cr]
  by (auto simp: activateResonance_def Let_def simp del: resonateDirections.simps
      split: list.splits) (metis fst_conv)+


lemma activateResonance_wf:
  "activateResonance b cr focus = Inr (nb, paths) \<Longrightarrow> wf_board nb = wf_board b"
  using activateResonance_shape [of b cr focus nb paths] by (simp add: wf_board_shape)

lemma selectFocusPosition_boardInvariant:
  assumes "boardInvariant s" and "selectFocusPosition s pos = Inr s'"
  shows "boardInvariant s'"
proof (cases "selectedCore s = None \<or> corePlayer s = None")
  case True
  then have "s' = s" using assms(2) by (auto simp: selectFocusPosition_def split: option.splits)
  then show ?thesis using assms(1) by simp
next
  case False
  then obtain cr owner where sel: "selectedCore s = Some cr" "corePlayer s = Some owner" by auto
  have wf: "wf_board (board s)" using assms(1) by (simp add: boardInvariant_def)
  let ?fb = "if stoneType (cellAt (board s) pos) = conduitType owner
             then setStoneType (board s) pos (keystoneType owner) else board s"
  have wf_fb: "wf_board ?fb" using wf by (simp add: wf_board_setStoneType)
  have inb: "inBoard (board s) pos"
    using assms(2) sel by (auto simp: selectFocusPosition_def split: if_splits)
  obtain nb paths where act: "activateResonance ?fb cr pos = Inr (nb, paths)"
    using assms(2) sel inb
    by (cases "activateResonance ?fb cr pos") (auto simp: selectFocusPosition_def Let_def)
  have wf_nb: "wf_board nb" using activateResonance_wf [OF act] wf_fb by simp
  obtain s2 move where c: "selectFocusPosition s pos = completeTurn s2 move"
    "boardInvariant s2 = boardInvariant s" "previousBoard move = board s" "currentBoard move = nb"
    using sel inb act
    by (simp add: selectFocusPosition_def Let_def boardInvariant_def addEvent_def)
  show ?thesis
    using completeTurn_boardInvariant [of s2 move s'] c assms wf wf_nb by simp
qed

lemma activateResonanceAction_boardInvariant:
  assumes "boardInvariant s" and "activateResonanceAction s cr pos = Inr s'"
  shows "boardInvariant s'"
proof -
  have wf: "wf_board (board s)" using assms(1) by (simp add: boardInvariant_def)
  obtain nb paths where act: "activateResonance (board s) cr pos = Inr (nb, paths)"
    using assms(2)
    by (cases "activateResonance (board s) cr pos") (auto simp: activateResonanceAction_def)
  have wf_nb: "wf_board nb" using activateResonance_wf [OF act] wf by simp
  show ?thesis
    using assms act wf wf_nb
    by (auto simp: activateResonanceAction_def elim!: completeTurn_boardInvariant [rotated 3])
qed

lemma undo_boardInvariant: "boardInvariant s \<Longrightarrow> undo s = Inr s' \<Longrightarrow> boardInvariant s'"
  by (auto simp: undo_def restoreView_def boardInvariant_def Let_def list_all_length
      split: if_splits)

lemma redo_boardInvariant: "boardInvariant s \<Longrightarrow> redo s = Inr s' \<Longrightarrow> boardInvariant s'"
  by (auto simp: redo_def restoreView_def boardInvariant_def Let_def list_all_length
      split: if_splits)

lemma confirmUndo_boardInvariant:
  "boardInvariant s \<Longrightarrow> confirmUndo s = Inr s' \<Longrightarrow> boardInvariant s'"
  by (auto simp: confirmUndo_def boardInvariant_def Let_def updateAvailableMoves_def
      updateConvertibleStones_def addEvent_def list_all_length split: if_splits)

lemma boardInvariant_simple [simp]:
  "boardInvariant (selectCore s cr) = boardInvariant s"
  "boardInvariant (setHoveredPosition s hovered) = boardInvariant s"
  "boardInvariant (toggleNotationMode s) = boardInvariant s"
  "boardInvariant (clearEventLog s) = boardInvariant s"
  "boardInvariant (updateAvailableMoves s) = boardInvariant s"
  "boardInvariant (updateConvertibleStones s) = boardInvariant s"
  "boardInvariant (resetGame s)"
  by (simp_all add: boardInvariant_def selectCore_def setHoveredPosition_def
      toggleNotationMode_def clearEventLog_def updateAvailableMoves_def
      updateConvertibleStones_def resetGame_def initialState_def Let_def wf_createEmptyBoard)

lemma reachable_boardInvariant: "reachable s \<Longrightarrow> boardInvariant s"
proof (induction rule: reachable.induct)
  case r_initial
  then show ?case by (simp add: boardInvariant_def initialState_def wf_createEmptyBoard)
next
  case (r_placeStone s pos s')
  then show ?case by (blast intro: placeStone_boardInvariant)
next
  case (r_convertLShape s shape stoneIndex s')
  then show ?case by (blast intro: convertLShape_boardInvariant)
next
  case (r_selectFocusPosition s pos s')
  then show ?case by (blast intro: selectFocusPosition_boardInvariant)
next
  case (r_activateResonance s cr pos s')
  then show ?case by (blast intro: activateResonanceAction_boardInvariant)
next
  case (r_undo s s')
  then show ?case by (blast intro: undo_boardInvariant)
next
  case (r_redo s s')
  then show ?case by (blast intro: redo_boardInvariant)
next
  case (r_confirmUndo s s')
  then show ?case by (blast intro: confirmUndo_boardInvariant)
next
  case (r_resetGameDeferred s)
  then show ?case by (simp add: resetGameDeferred_def)
qed simp_all

lemma reachable_wf_board: "reachable s \<Longrightarrow> wf_board (board s)"
  using reachable_boardInvariant by (simp add: boardInvariant_def)

end
